theory Spec2Isabelle
  imports Complex_Main
begin

section \<open>NumPy float64 values\<close>

text \<open>
  The notebook computes on NumPy float64 arrays. A float64 is either not-a-number, one of
  the two infinities, or a finite number. The finite numbers are carried as reals: the
  rounding of the results of float64 addition, subtraction and multiplication and the
  sign of zero are not part of this model; the special values and their IEEE 754
  arithmetic are, and so is the rounding of an integer that is converted to float64.
\<close>

datatype npfloat = NaN | NInf | Fin real | PInf

fun fneg :: "npfloat \<Rightarrow> npfloat" where
  "fneg NaN = NaN"
| "fneg NInf = PInf"
| "fneg PInf = NInf"
| "fneg (Fin x) = Fin (- x)"

fun fadd :: "npfloat \<Rightarrow> npfloat \<Rightarrow> npfloat" where
  "fadd NaN b = NaN"
| "fadd a NaN = NaN"
| "fadd PInf NInf = NaN"
| "fadd NInf PInf = NaN"
| "fadd PInf b = PInf"
| "fadd a PInf = PInf"
| "fadd NInf b = NInf"
| "fadd a NInf = NInf"
| "fadd (Fin x) (Fin y) = Fin (x + y)"

definition fsub :: "npfloat \<Rightarrow> npfloat \<Rightarrow> npfloat" where
  "fsub a b = fadd a (fneg b)"

text \<open>The sign of a float64 that is not NaN: \<open>-1\<close>, \<open>0\<close> or \<open>1\<close>.\<close>

fun fsign :: "npfloat \<Rightarrow> int" where
  "fsign NaN = 0"
| "fsign NInf = - 1"
| "fsign PInf = 1"
| "fsign (Fin x) = (if x < 0 then - 1 else if x = 0 then 0 else 1)"

fun fmul :: "npfloat \<Rightarrow> npfloat \<Rightarrow> npfloat" where
  "fmul NaN b = NaN"
| "fmul a NaN = NaN"
| "fmul (Fin x) (Fin y) = Fin (x * y)"
| "fmul a b =
     (let s = fsign a * fsign b
      in if s = 0 then NaN else if s < 0 then NInf else PInf)"

fun fabs :: "npfloat \<Rightarrow> npfloat" where
  "fabs NaN = NaN"
| "fabs NInf = PInf"
| "fabs PInf = PInf"
| "fabs (Fin x) = Fin \<bar>x\<bar>"

text \<open>The comparisons \<open><=\<close> and \<open>==\<close> of float64: false whenever an operand is NaN.\<close>

fun fle :: "npfloat \<Rightarrow> npfloat \<Rightarrow> bool" where
  "fle NaN b = False"
| "fle a NaN = False"
| "fle NInf b = True"
| "fle a PInf = True"
| "fle (Fin x) (Fin y) = (x \<le> y)"
| "fle a b = False"

definition feq :: "npfloat \<Rightarrow> npfloat \<Rightarrow> bool" where
  "feq a b = (a \<noteq> NaN \<and> b \<noteq> NaN \<and> a = b)"

text \<open>\<open>np.minimum\<close> on two float64: NaN if either operand is NaN, else the lesser.\<close>

definition fminimum :: "npfloat \<Rightarrow> npfloat \<Rightarrow> npfloat" where
  "fminimum a b = (if a = NaN \<or> b = NaN then NaN else if fle a b then a else b)"

text \<open>\<open>np.isfinite\<close>: neither NaN nor an infinity.\<close>

fun is_finite :: "npfloat \<Rightarrow> bool" where
  "is_finite (Fin x) = True"
| "is_finite a = False"

section \<open>One-dimensional arrays and dictionaries of columns\<close>

datatype py_error =
    KeyError string
  | IndexError
  | ValueError
  | TypeError
  | OSError
  | ProjError

text \<open>Sequencing of steps that may raise: the first exception ends the computation.\<close>

definition bind_err :: "py_error + 'a \<Rightarrow> ('a \<Rightarrow> py_error + 'b) \<Rightarrow> py_error + 'b" where
  "bind_err r f = (case r of Inl e \<Rightarrow> Inl e | Inr v \<Rightarrow> f v)"

text \<open>
  An Elevation Segment Table as the notebook holds it: a Python dictionary from column
  names to one-dimensional float64 arrays. \<open>D6['h_li']\<close> raises KeyError when the
  column is absent.
\<close>

type_synonym table = "string \<rightharpoonup> npfloat list"

definition getitem :: "table \<Rightarrow> string \<Rightarrow> py_error + npfloat list" where
  "getitem D k = (case D k of None \<Rightarrow> Inl (KeyError k) | Some a \<Rightarrow> Inr a)"

text \<open>
  An elementwise binary operation on two one-dimensional arrays, with NumPy's
  broadcasting: equal sizes are combined position by position, an array of size 1 is
  stretched to the other's size, anything else raises ValueError.
\<close>

definition np_binop ::
  "(npfloat \<Rightarrow> npfloat \<Rightarrow> npfloat) \<Rightarrow> npfloat list \<Rightarrow> npfloat list \<Rightarrow> py_error + npfloat list" where
  "np_binop f a b =
     (if length a = length b then Inr (map2 f a b)
      else if length a = 1 then Inr (map (f (hd a)) b)
      else if length b = 1 then Inr (map (\<lambda>x. f x (hd b)) a)
      else Inl ValueError)"

text \<open>An array combined with a Python scalar, as in \<open>D6['dh_fit_dx']*20\<close>.\<close>

definition np_scalar_op ::
  "(npfloat \<Rightarrow> npfloat \<Rightarrow> npfloat) \<Rightarrow> npfloat list \<Rightarrow> npfloat \<Rightarrow> npfloat list" where
  "np_scalar_op f a c = map (\<lambda>x. f x c) a"

text \<open>
  Assignment of an array to a slice that holds \<open>n\<close> elements (\<open>h_ep[0, :] = v\<close>,
  \<open>delta_h_seg[1:] = v\<close>): the value must have \<open>n\<close> elements, or one element that is
  repeated; the function returns the new content of the slice.
\<close>

definition assign_slice :: "nat \<Rightarrow> npfloat list \<Rightarrow> py_error + npfloat list" where
  "assign_slice n v =
     (if length v = n then Inr v
      else if length v = 1 then Inr (replicate n (hd v))
      else Inl ValueError)"

text \<open>Indexing with a boolean mask, \<open>a[good]\<close>: the mask must have the array's size.\<close>

definition bool_index :: "npfloat list \<Rightarrow> bool list \<Rightarrow> py_error + npfloat list" where
  "bool_index a m =
     (if length m = length a then Inr (map fst (filter snd (zip a m))) else Inl IndexError)"

section \<open>Segment consistency score: \<open>min_seg_difference\<close>\<close>

text \<open>
  The function follows the source line by line. \<open>h_ep\<close> has two rows, kept here as
  \<open>h_ep0\<close> and \<open>h_ep1\<close>; \<open>x[1:]\<close> is \<open>drop 1 x\<close> and \<open>x[:-1]\<close> is \<open>butlast x\<close>.
  The array \<open>delta_h_seg\<close> starts as zeros of the size of \<open>h_li\<close>; its slice \<open>[1:]\<close>
  is overwritten first, then its slice \<open>[:-1]\<close>.
\<close>

definition min_seg_difference :: "table \<Rightarrow> py_error + npfloat list" where
  "min_seg_difference D6 =
     bind_err (getitem D6 ''h_li'') (\<lambda>h_li.
     bind_err (getitem D6 ''dh_fit_dx'') (\<lambda>dh_fit_dx.
     bind_err (np_binop fsub h_li (np_scalar_op fmul dh_fit_dx (Fin 20))) (\<lambda>lo.
     bind_err (assign_slice (length h_li) lo) (\<lambda>h_ep0.
     bind_err (np_binop fadd h_li (np_scalar_op fmul dh_fit_dx (Fin 20))) (\<lambda>hi.
     bind_err (assign_slice (length h_li) hi) (\<lambda>h_ep1.
     let delta_h_seg = replicate (length h_li) (Fin 0) in
     bind_err (np_binop fsub (drop 1 h_li) (butlast h_ep1)) (\<lambda>d1.
     bind_err (assign_slice (length (drop 1 delta_h_seg)) (map fabs d1)) (\<lambda>s1.
     let delta_h_seg = take 1 delta_h_seg @ s1 in
     bind_err (np_binop fsub (butlast h_li) (drop 1 h_ep0)) (\<lambda>d0.
     bind_err (np_binop fminimum (butlast delta_h_seg) (map fabs d0)) (\<lambda>m0.
     bind_err (assign_slice (length (butlast delta_h_seg)) m0) (\<lambda>s0.
     let delta_h_seg = s0 @ drop (length delta_h_seg - 1) delta_h_seg in
     Inr delta_h_seg)))))))))))"

text \<open>
  Closed form of the score of segment \<open>i\<close> that the function computes, used to state
  what the arrays above hold position by position. \<open>pred_diff\<close> compares the elevation
  of segment \<open>i\<close> with the forward endpoint of its predecessor, \<open>succ_diff\<close> with the
  backward endpoint of its successor.
\<close>

definition pred_diff :: "npfloat list \<Rightarrow> npfloat list \<Rightarrow> nat \<Rightarrow> npfloat" where
  "pred_diff h s i = fabs (fsub (h ! i) (fadd (h ! (i - 1)) (fmul (s ! (i - 1)) (Fin 20))))"

definition succ_diff :: "npfloat list \<Rightarrow> npfloat list \<Rightarrow> nat \<Rightarrow> npfloat" where
  "succ_diff h s i = fabs (fsub (h ! i) (fsub (h ! (i + 1)) (fmul (s ! (i + 1)) (Fin 20))))"

definition seg_score :: "npfloat list \<Rightarrow> npfloat list \<Rightarrow> nat \<Rightarrow> npfloat" where
  "seg_score h s i =
     (if i + 1 < length h
      then fminimum (if i = 0 then Fin 0 else pred_diff h s i) (succ_diff h s i)
      else if i = 0 then Fin 0 else pred_diff h s i)"

text \<open>
  The score as the specification words it, for comparison with the code: the segment's own
  elevation is extrapolated by the distance \<open>d\<close> with the segment's own slope, backward
  and forward, and compared with the elevations of the predecessor and the successor.
\<close>

definition spec_seg_score :: "npfloat \<Rightarrow> npfloat list \<Rightarrow> npfloat list \<Rightarrow> nat \<Rightarrow> npfloat" where
  "spec_seg_score d h s i =
     fminimum (fabs (fsub (fsub (h ! i) (fmul (s ! i) d)) (h ! (i - 1))))
              (fabs (fsub (fadd (h ! i) (fmul (s ! i) d)) (h ! (i + 1))))"

section \<open>Cross-track slope correction\<close>

text \<open>
  The plotting cell computes, for the table \<open>Dl\<close> of one beam,
  \<^verbatim>\<open>good=Dl['atl06_quality_summary']==0\<close>,
  \<^verbatim>\<open>atc_corr=Dl['y_atc']*Dl['dh_fit_dy']\<close> and plots
  \<^verbatim>\<open>Dl['h_li'][good]-atc_corr[good]\<close>. The three steps are modelled in this order.
\<close>

definition quality_good :: "table \<Rightarrow> py_error + bool list" where
  "quality_good Dl =
     bind_err (getitem Dl ''atl06_quality_summary'') (\<lambda>q. Inr (map (\<lambda>v. feq v (Fin 0)) q))"

definition atc_corr :: "table \<Rightarrow> py_error + npfloat list" where
  "atc_corr Dl =
     bind_err (getitem Dl ''y_atc'') (\<lambda>y_atc.
     bind_err (getitem Dl ''dh_fit_dy'') (\<lambda>dh_fit_dy.
     np_binop fmul y_atc dh_fit_dy))"

definition corrected_h :: "table \<Rightarrow> py_error + npfloat list" where
  "corrected_h Dl =
     bind_err (quality_good Dl) (\<lambda>good.
     bind_err (atc_corr Dl) (\<lambda>corr.
     bind_err (getitem Dl ''h_li'') (\<lambda>h_li.
     bind_err (bool_index h_li good) (\<lambda>hg.
     bind_err (bool_index corr good) (\<lambda>cg.
     np_binop fsub hg cg)))))"

text \<open>The segments that pass the quality filter, by position in the table.\<close>

definition good_segments :: "npfloat list \<Rightarrow> nat list" where
  "good_segments q = filter (\<lambda>i. feq (q ! i) (Fin 0)) [0..<length q]"

text \<open>
  The position, in an array indexed with \<open>[good]\<close>, of segment \<open>i\<close> of the table: the
  number of segments before \<open>i\<close> that pass the filter.
\<close>

definition seg_position :: "npfloat list \<Rightarrow> nat \<Rightarrow> nat" where
  "seg_position q i = length (filter (\<lambda>k. feq (q ! k) (Fin 0)) [0..<i])"

section \<open>The ATL06 reader: \<open>atl06_to_dict\<close>\<close>

subsection \<open>Datasets of an HDF5 file\<close>

text \<open>
  A dataset holds a one-dimensional array of integers or of floats, and attributes; the
  attribute \<open>_FillValue\<close>, when present, is a scalar of either kind. Integers are
  carried as unbounded integers; the integers of a file are those of an integer type of
  at most 64 bits. An open file maps the full path of a dataset to the dataset;
  \<open>h5f[ds_name]\<close> raises KeyError when the path (the dataset or a group on the way)
  does not exist.
\<close>

datatype npscalar = IntVal int | FloatVal npfloat

datatype ndarray = IntArr "int list" | FloatArr "npfloat list"

record dataset =
  data :: ndarray
  attrs :: "string \<rightharpoonup> npscalar"

type_synonym h5file = "string \<rightharpoonup> dataset"

fun array_size :: "ndarray \<Rightarrow> nat" where
  "array_size (IntArr xs) = length xs"
| "array_size (FloatArr xs) = length xs"

text \<open>The numeric values of an array as they are, whatever its element type.\<close>

fun array_values :: "ndarray \<Rightarrow> npfloat list" where
  "array_values (IntArr xs) = map (\<lambda>x. Fin (real_of_int x)) xs"
| "array_values (FloatArr xs) = xs"

text \<open>
  The conversion of an integer to float64. A float64 has 53 significant bits: an
  integer of more bits loses its low bits, and the result is the nearest multiple of
  the power of two that remains, the even one of two that are equally near.
  \<open>excess_bits n\<close> is the number of low bits that \<open>n\<close> loses. An integer of at most
  64 bits never exceeds the range of float64.
\<close>

function excess_bits :: "nat \<Rightarrow> nat" where
  "excess_bits n = (if n < 2 ^ 53 then 0 else Suc (excess_bits (n div 2)))"
  by pat_completeness auto
termination
  by (relation "measure (\<lambda>n. n)") auto

definition float64_magnitude :: "nat \<Rightarrow> nat" where
  "float64_magnitude n =
     (let e = excess_bits n; q = n div 2 ^ e; r = n mod 2 ^ e;
          q' = (if 2 ^ e < 2 * r \<or> (2 * r = 2 ^ e \<and> odd q) then q + 1 else q)
      in q' * 2 ^ e)"

definition int_to_float64 :: "int \<Rightarrow> npfloat" where
  "int_to_float64 x =
     (if x < 0 then Fin (- real (float64_magnitude (nat (- x))))
      else Fin (real (float64_magnitude (nat x))))"

text \<open>
  \<open>a.astype(float)\<close>: a float array stays as it is (a cast from a narrower float type
  is exact), and each integer is converted to float64.
\<close>

fun astype_float :: "ndarray \<Rightarrow> npfloat list" where
  "astype_float (IntArr xs) = map int_to_float64 xs"
| "astype_float (FloatArr xs) = xs"

text \<open>
  \<open>a == c\<close> for an array and a scalar, element by element: integers compare as
  integers; when one operand is a float the integer operand is converted to float64 and
  the comparison is one of floats (never true on NaN).
\<close>

fun np_eq_scalar :: "ndarray \<Rightarrow> npscalar \<Rightarrow> bool list" where
  "np_eq_scalar (IntArr xs) (IntVal c) = map (\<lambda>x. x = c) xs"
| "np_eq_scalar (IntArr xs) (FloatVal c) = map (\<lambda>x. feq (int_to_float64 x) c) xs"
| "np_eq_scalar (FloatArr xs) (IntVal c) = map (\<lambda>x. feq x (int_to_float64 c)) xs"
| "np_eq_scalar (FloatArr xs) (FloatVal c) = map (\<lambda>x. feq x c) xs"

text \<open>\<open>a[bad_vals] = np.NaN\<close> on a float array and a mask of its size.\<close>

definition set_nan_where :: "npfloat list \<Rightarrow> bool list \<Rightarrow> npfloat list" where
  "set_nan_where a bad_vals = map2 (\<lambda>v b. if b then NaN else v) a bad_vals"

subsection \<open>The \<open>index\<close> argument\<close>

text \<open>
  \<open>index\<close> is \<open>None\<close> or a Python slice (the notebook passes \<open>slice(0, -1, 25)\<close>).
  A slice selects the positions \<open>lo, lo + step, ...\<close> below \<open>hi\<close>, where a negative
  bound counts from the end and both bounds are clipped to the size. h5py accepts only
  steps of at least 1 and raises ValueError otherwise.
\<close>

record pyslice =
  start :: "int option"
  stop :: "int option"
  step :: "int option"

definition clip_bound :: "nat \<Rightarrow> int \<Rightarrow> nat" where
  "clip_bound n a = (if a < 0 then nat (max (a + int n) 0) else min (nat a) n)"

definition slice_positions :: "pyslice \<Rightarrow> nat \<Rightarrow> py_error + nat list" where
  "slice_positions sl n =
     (let k = (case step sl of None \<Rightarrow> 1 | Some k \<Rightarrow> k) in
      if k < 1 then Inl ValueError
      else
        let lo = (case start sl of None \<Rightarrow> 0 | Some a \<Rightarrow> clip_bound n a);
            hi = (case stop sl of None \<Rightarrow> n | Some b \<Rightarrow> clip_bound n b);
            cnt = (if hi \<le> lo then 0 else (hi - lo + nat k - 1) div nat k)
        in Inr (map (\<lambda>j. lo + j * nat k) [0..<cnt]))"

definition select_positions :: "nat list \<Rightarrow> ndarray \<Rightarrow> ndarray" where
  "select_positions ps a =
     (case a of IntArr xs \<Rightarrow> IntArr (map (\<lambda>p. xs ! p) ps)
              | FloatArr xs \<Rightarrow> FloatArr (map (\<lambda>p. xs ! p) ps))"

text \<open>An \<open>index\<close> that h5py accepts: \<open>None\<close>, or a slice whose step is absent or at least 1.\<close>

definition valid_index :: "pyslice option \<Rightarrow> bool" where
  "valid_index index =
     (case index of
        None \<Rightarrow> True
      | Some sl \<Rightarrow> (case step sl of None \<Rightarrow> True | Some k \<Rightarrow> 1 \<le> k))"

text \<open>\<open>h5f[ds_name][index]\<close>, or the whole dataset when \<open>index\<close> is \<open>None\<close>.\<close>

definition read_raw :: "pyslice option \<Rightarrow> ndarray \<Rightarrow> py_error + ndarray" where
  "read_raw index a =
     (case index of
        None \<Rightarrow> Inr a
      | Some sl \<Rightarrow> bind_err (slice_positions sl (array_size a)) (\<lambda>ps. Inr (select_positions ps a)))"

subsection \<open>Reading one dataset, one group, all groups\<close>

definition ds_name :: "string \<Rightarrow> string option \<Rightarrow> string \<Rightarrow> string" where
  "ds_name beam key ds =
     (case key of
        Some k \<Rightarrow> beam @ ''/land_ice_segments/'' @ k @ ''/'' @ ds
      | None \<Rightarrow> beam @ ''/land_ice_segments/'' @ ds)"

text \<open>
  The body of the inner loop: the array that ends up in \<open>D[ds]\<close>. Without a
  \<open>_FillValue\<close> attribute the array is stored as it was read; with one, the entries
  equal to it are found on the raw array, the array is cast to float, and those
  entries are set to NaN.
\<close>

definition read_dataset :: "h5file \<Rightarrow> string \<Rightarrow> pyslice option \<Rightarrow> py_error + ndarray" where
  "read_dataset h5f name index =
     (case h5f name of
        None \<Rightarrow> Inl (KeyError name)
      | Some dset \<Rightarrow>
          bind_err (read_raw index (data dset)) (\<lambda>raw.
            case attrs dset ''_FillValue'' of
              None \<Rightarrow> Inr raw
            | Some fv \<Rightarrow>
                let bad_vals = np_eq_scalar raw fv
                in Inr (FloatArr (set_nan_where (astype_float raw) bad_vals))))"

text \<open>
  A dataset has no fill-flagged entry among the entries \<open>raw\<close> when it has no
  \<open>_FillValue\<close> attribute, or no entry compares equal to it.
\<close>

definition fill_free :: "dataset \<Rightarrow> ndarray \<Rightarrow> bool" where
  "fill_free dset raw =
     (case attrs dset ''_FillValue'' of
        None \<Rightarrow> True
      | Some fv \<Rightarrow> list_all (\<lambda>b. b = False) (np_eq_scalar raw fv))"

text \<open>
  The cast of the reader changes no value of the entries \<open>raw\<close> of a dataset when the
  dataset has no \<open>_FillValue\<close> attribute (there is no cast then), when the entries
  are floats, or when they are integers of magnitude at most \<open>2 ^ 53\<close>.
\<close>

definition cast_exact :: "dataset \<Rightarrow> ndarray \<Rightarrow> bool" where
  "cast_exact dset raw =
     (case attrs dset ''_FillValue'' of
        None \<Rightarrow> True
      | Some fv \<Rightarrow>
          (case raw of
             IntArr xs \<Rightarrow> list_all (\<lambda>x. \<bar>x\<bar> \<le> 2 ^ 53) xs
           | FloatArr xs \<Rightarrow> True))"

text \<open>
  The values of the dictionary that the reader returns: arrays, and the provenance
  entries \<open>rgt\<close>, \<open>cycle\<close> (integers) and \<open>beam\<close> (a string).
\<close>

datatype pyval = Arr ndarray | PyInt int | PyStr string

type_synonym pydict = "string \<rightharpoonup> pyval"

fun read_group ::
  "h5file \<Rightarrow> string \<Rightarrow> pyslice option \<Rightarrow> string option \<Rightarrow> string list \<Rightarrow> pydict \<Rightarrow> py_error + pydict" where
  "read_group h5f beam index key [] D = Inr D"
| "read_group h5f beam index key (ds # rest) D =
     bind_err (read_dataset h5f (ds_name beam key ds) index) (\<lambda>a.
       read_group h5f beam index key rest (D(ds \<mapsto> Arr a)))"

text \<open>
  \<open>field_dict\<close> is a Python dictionary, iterated in insertion order: a list of
  (group name or \<open>None\<close>, dataset names).
\<close>

type_synonym field_dict = "(string option \<times> string list) list"

fun read_fields ::
  "h5file \<Rightarrow> string \<Rightarrow> pyslice option \<Rightarrow> field_dict \<Rightarrow> pydict \<Rightarrow> py_error + pydict" where
  "read_fields h5f beam index [] D = Inr D"
| "read_fields h5f beam index ((key, dss) # rest) D =
     bind_err (read_group h5f beam index key dss D) (\<lambda>D'.
       read_fields h5f beam index rest D')"

definition default_field_dict :: field_dict where
  "default_field_dict =
     [(None, [''latitude'', ''longitude'', ''h_li'', ''atl06_quality_summary'']),
      (Some ''ground_track'', [''x_atc'', ''y_atc'']),
      (Some ''fit_statistics'', [''dh_fit_dx'', ''dh_fit_dy''])]"

subsection \<open>Projection\<close>

text \<open>
  The projection library is outside the notebook and is a parameter of the model:
  \<open>Proj epsg\<close> builds the projection or raises, and the projection maps the longitude
  and latitude entries to the two rows of \<open>xy\<close> or raises. Each row is then reshaped to
  the shape of the latitude array, which raises ValueError when the sizes differ.
\<close>

type_synonym projection = "pyval \<Rightarrow> pyval \<Rightarrow> py_error + (npfloat list \<times> npfloat list)"

definition dict_get :: "pydict \<Rightarrow> string \<Rightarrow> py_error + pyval" where
  "dict_get D k = (case D k of None \<Rightarrow> Inl (KeyError k) | Some v \<Rightarrow> Inr v)"

definition reshape_like :: "npfloat list \<Rightarrow> pyval \<Rightarrow> py_error + pyval" where
  "reshape_like xs v =
     (case v of
        Arr a \<Rightarrow> if length xs = array_size a then Inr (Arr (FloatArr xs)) else Inl ValueError
      | _ \<Rightarrow> Inl TypeError)"

definition project :: "(int \<Rightarrow> py_error + projection) \<Rightarrow> int option \<Rightarrow> pydict \<Rightarrow> py_error + pydict" where
  "project Proj epsg D =
     (case epsg of
        None \<Rightarrow> Inr D
      | Some code \<Rightarrow>
          bind_err (Proj code) (\<lambda>p.
          bind_err (dict_get D ''longitude'') (\<lambda>lon.
          bind_err (dict_get D ''latitude'') (\<lambda>lat.
          bind_err (p lon lat) (\<lambda>xy.
          bind_err (reshape_like (fst xy) lat) (\<lambda>x.
          bind_err (reshape_like (snd xy) lat) (\<lambda>y.
          Inr (D(''x'' \<mapsto> x, ''y'' \<mapsto> y)))))))))"

subsection \<open>Provenance from the file name: \<open>file_re\<close>\<close>

text \<open>
  The pattern is
  \<^verbatim>\<open>ATL06_(?P<date>\d+)_(?P<rgt>\d\d\d\d)(?P<cycle>\d\d)(?P<region>\d\d)_(?P<release>\d\d\d)_(?P<version>\d\d).h5\<close>.
  File names are strings of bytes here, so \<open>\d\<close> is one of the ten ASCII digits, and
  the unescaped dot is any character but a newline. The digits of \<open>date\<close> are followed
  by an underscore, so a match takes the whole run of digits. \<open>search\<close> returns the
  match at the leftmost position that has one, or \<open>None\<close>.
\<close>

definition is_digit :: "char \<Rightarrow> bool" where
  "is_digit c = (c \<in> set ''0123456789'')"

definition all_digits :: "string \<Rightarrow> bool" where
  "all_digits s = list_all is_digit s"

record re_match =
  date :: string
  rgt :: string
  cycle :: string
  region :: string
  release :: string
  version :: string

definition strip_prefix :: "string \<Rightarrow> string \<Rightarrow> string option" where
  "strip_prefix p s = (if take (length p) s = p then Some (drop (length p) s) else None)"

definition file_re_match_at :: "string \<Rightarrow> re_match option" where
  "file_re_match_at s =
     (case strip_prefix ''ATL06_'' s of
        None \<Rightarrow> None
      | Some r \<Rightarrow>
          let d = takeWhile is_digit r; t = dropWhile is_digit r
          in if d \<noteq> []
                \<and> 19 \<le> length t
                \<and> t ! 0 = CHR ''_''
                \<and> all_digits (take 8 (drop 1 t))
                \<and> t ! 9 = CHR ''_''
                \<and> all_digits (take 3 (drop 10 t))
                \<and> t ! 13 = CHR ''_''
                \<and> all_digits (take 2 (drop 14 t))
                \<and> t ! 16 \<noteq> CHR 0x0A
                \<and> t ! 17 = CHR ''h''
                \<and> t ! 18 = CHR ''5''
             then Some \<lparr>date = d, rgt = take 4 (drop 1 t), cycle = take 2 (drop 5 t),
                        region = take 2 (drop 7 t), release = take 3 (drop 10 t),
                        version = take 2 (drop 14 t)\<rparr>
             else None)"

fun file_re_search :: "string \<Rightarrow> re_match option" where
  "file_re_search [] = None"
| "file_re_search (c # s) =
     (case file_re_match_at (c # s) of
        Some m \<Rightarrow> Some m
      | None \<Rightarrow> file_re_search s)"

text \<open>\<open>int\<close> of a string of decimal digits.\<close>

definition digit_value :: "char \<Rightarrow> int" where
  "digit_value c = int (of_char c) - 48"

definition py_int :: "string \<Rightarrow> int" where
  "py_int s = foldl (\<lambda>a c. 10 * a + digit_value c) 0 s"

subsection \<open>The reader\<close>

text \<open>
  The file system maps a file name to the content of the HDF5 file; opening a name that
  is not there raises OSError. When the name does not match the pattern, \<open>temp\<close> is
  \<open>None\<close> and \<open>temp['rgt']\<close> raises TypeError: this happens after the fields were
  read and projected.
\<close>

type_synonym filesystem = "string \<rightharpoonup> h5file"

text \<open>The fields a call asks for: the argument, or the default when it is \<open>None\<close>.\<close>

definition requested :: "field_dict option \<Rightarrow> field_dict" where
  "requested field_dict = (case field_dict of None \<Rightarrow> default_field_dict | Some fd \<Rightarrow> fd)"

definition atl06_to_dict ::
  "filesystem \<Rightarrow> (int \<Rightarrow> py_error + projection) \<Rightarrow> string \<Rightarrow> string \<Rightarrow> field_dict option
     \<Rightarrow> pyslice option \<Rightarrow> int option \<Rightarrow> py_error + pydict" where
  "atl06_to_dict fs Proj filename beam field_dict index epsg =
     (let field_dict = requested field_dict in
      case fs filename of
        None \<Rightarrow> Inl OSError
      | Some h5f \<Rightarrow>
          bind_err (read_fields h5f beam index field_dict Map.empty) (\<lambda>D.
          bind_err (project Proj epsg D) (\<lambda>D.
          case file_re_search filename of
            None \<Rightarrow> Inl TypeError
          | Some temp \<Rightarrow>
              Inr (D(''rgt'' \<mapsto> PyInt (py_int (rgt temp)),
                     ''cycle'' \<mapsto> PyInt (py_int (cycle temp)),
                     ''beam'' \<mapsto> PyStr beam)))))"

text \<open>One entry of the dictionary a read returned, \<open>None\<close> when the read raised.\<close>

definition result_entry :: "py_error + pydict \<Rightarrow> string \<Rightarrow> pyval option" where
  "result_entry r k = (case r of Inl e \<Rightarrow> None | Inr D \<Rightarrow> D k)"

subsection \<open>Reading all files of a directory\<close>

text \<open>
  The loop over \<open>ATL06_files\<close>: the state is \<open>D_dict\<close> and the lines printed so far,
  each line given by the file and the exception it reports. Only KeyError is caught;
  any other exception leaves the loop. The line printed after the loop, with the number
  of files read, is not modelled.
\<close>

type_synonym batch_state = "(string \<rightharpoonup> pydict) \<times> (string \<times> py_error) list"

definition batch_index :: pyslice where
  "batch_index = \<lparr>start = Some 0, stop = Some (- 1), step = Some 25\<rparr>"

fun read_D_dict ::
  "filesystem \<Rightarrow> (int \<Rightarrow> py_error + projection) \<Rightarrow> string list \<Rightarrow> batch_state
     \<Rightarrow> py_error + batch_state" where
  "read_D_dict fs Proj [] st = Inr st"
| "read_D_dict fs Proj (file # files) (D_dict, out) =
     (case atl06_to_dict fs Proj file ''/gt2l'' None (Some batch_index) (Some 3031) of
        Inr D \<Rightarrow> read_D_dict fs Proj files (D_dict(file \<mapsto> D), out)
      | Inl (KeyError e) \<Rightarrow> read_D_dict fs Proj files (D_dict, out @ [(file, KeyError e)])
      | Inl e \<Rightarrow> Inl e)"

section \<open>Properties of the consistency score\<close>

lemma bind_err_Inr [simp]: "bind_err (Inr v) f = f v"
  by (simp add: bind_err_def)

lemma bind_err_Inl [simp]: "bind_err (Inl e) f = Inl e"
  by (simp add: bind_err_def)

lemma np_binop_same: "length a = length b \<Longrightarrow> np_binop f a b = Inr (map2 f a b)"
  by (simp add: np_binop_def)

lemma assign_slice_same: "length v = n \<Longrightarrow> assign_slice n v = Inr v"
  by (simp add: assign_slice_def)

text \<open>With columns of one size no step raises, and the result is built from the slices.\<close>

lemma min_seg_difference_expand:
  assumes "D6 ''h_li'' = Some h" "D6 ''dh_fit_dx'' = Some s" "length s = length h"
  shows "min_seg_difference D6 =
    Inr (map2 fminimum
          (butlast (take 1 (replicate (length h) (Fin 0)) @
             map fabs (map2 fsub (drop 1 h) (butlast (map2 fadd h (map (\<lambda>x. fmul x (Fin 20)) s))))))
          (map fabs (map2 fsub (butlast h) (drop 1 (map2 fsub h (map (\<lambda>x. fmul x (Fin 20)) s)))))
         @ drop (length h - 1) (take 1 (replicate (length h) (Fin 0)) @
             map fabs (map2 fsub (drop 1 h) (butlast (map2 fadd h (map (\<lambda>x. fmul x (Fin 20)) s))))))"
  using assms
  by (simp add: min_seg_difference_def getitem_def np_binop_same assign_slice_same
      np_scalar_op_def Let_def min_def)

text \<open>Position by position, the result is \<open>seg_score\<close>.\<close>

lemma min_seg_difference_closed:
  assumes "D6 ''h_li'' = Some h" "D6 ''dh_fit_dx'' = Some s" "length s = length h"
  shows "min_seg_difference D6 = Inr (map (seg_score h s) [0..<length h])"
proof -
  define ep1 where "ep1 = map2 fadd h (map (\<lambda>x. fmul x (Fin 20)) s)"
  define ep0 where "ep0 = map2 fsub h (map (\<lambda>x. fmul x (Fin 20)) s)"
  define Y where "Y = map fabs (map2 fsub (drop 1 h) (butlast ep1))"
  define d1 where "d1 = take 1 (replicate (length h) (Fin 0)) @ Y"
  define X where "X = map fabs (map2 fsub (butlast h) (drop 1 ep0))"
  define R where "R = map2 fminimum (butlast d1) X @ drop (length h - 1) d1"
  have lenep: "length ep1 = length h" "length ep0 = length h"
    using assms(3) by (simp_all add: ep1_def ep0_def)
  have ep1: "ep1 ! j = fadd (h ! j) (fmul (s ! j) (Fin 20))" if "j < length h" for j
    using that assms(3) by (simp add: ep1_def)
  have ep0: "ep0 ! j = fsub (h ! j) (fmul (s ! j) (Fin 20))" if "j < length h" for j
    using that assms(3) by (simp add: ep0_def)
  have lenY: "length Y = length h - 1" using lenep by (simp add: Y_def)
  have lend1: "length d1 = length h" using lenY by (auto simp add: d1_def min_def)
  have lenX: "length X = length h - 1" using lenep by (simp add: X_def)
  have lenR: "length R = length h" using lend1 lenX by (auto simp add: R_def)
  have Y: "Y ! j = pred_diff h s (j + 1)" if "j + 1 < length h" for j
    using that lenep ep1[of j] by (simp add: Y_def pred_diff_def nth_butlast)
  have d1: "d1 ! i = (if i = 0 then Fin 0 else pred_diff h s i)" if "i < length h" for i
  proof (cases i)
    case 0
    then show ?thesis using that by (simp add: d1_def nth_append)
  next
    case (Suc j)
    have "d1 ! i = Y ! j" using that Suc by (simp add: d1_def nth_append min_def)
    then show ?thesis using Y[of j] that Suc by simp
  qed
  have X: "X ! i = succ_diff h s i" if "i + 1 < length h" for i
    using that lenep ep0[of "i + 1"] by (simp add: X_def succ_diff_def nth_butlast)
  have R: "R ! i = seg_score h s i" if "i < length h" for i
  proof (cases "i + 1 < length h")
    case True
    then have il: "i < length h - 1" by arith
    have "R ! i = fminimum (butlast d1 ! i) (X ! i)"
      using il lend1 lenX by (simp add: R_def nth_append)
    also have "butlast d1 ! i = d1 ! i"
      using il lend1 by (simp add: nth_butlast)
    finally show ?thesis using True d1[OF that] X[OF True] by (simp add: seg_score_def)
  next
    case False
    then have i: "i = length h - 1" using that by simp
    have "length (map2 fminimum (butlast d1) X) = i"
      using i lend1 lenX by simp
    then have "R ! i = d1 ! i"
      using i that lend1 by (simp add: R_def nth_append)
    then show ?thesis using False d1[OF that] by (simp add: seg_score_def)
  qed
  have "R = map (seg_score h s) [0..<length h]"
    by (rule nth_equalityI) (use lenR R in auto)
  then show ?thesis using min_seg_difference_expand[OF assms]
    by (simp add: R_def d1_def Y_def X_def ep0_def ep1_def)
qed

lemma min_seg_difference_nth:
  assumes "D6 ''h_li'' = Some h" "D6 ''dh_fit_dx'' = Some s" "length s = length h"
    and "i < length h"
  shows "\<exists>sc. min_seg_difference D6 = Inr sc \<and> length sc = length h
           \<and> sc ! i = seg_score h s i"
  using min_seg_difference_closed[OF assms(1-3)] assms(4) by simp

text \<open>
  The scenario of the specification: distances 0, 20, 40, elevations 100.0, 100.2, 100.5
  and the slope 0.01 throughout give the middle segment the score 0.
\<close>

lemma min_seg_difference_scenario:
  "min_seg_difference
     [''x_atc'' \<mapsto> [Fin 0, Fin 20, Fin 40],
      ''h_li'' \<mapsto> [Fin 100, Fin (1002 / 10), Fin (1005 / 10)],
      ''dh_fit_dx'' \<mapsto> [Fin (1 / 100), Fin (1 / 100), Fin (1 / 100)]]
   = Inr [Fin 0, Fin 0, Fin (1 / 10)]"
  by (simp add: min_seg_difference_def getitem_def np_binop_def np_scalar_op_def
      assign_slice_def fsub_def fminimum_def)

lemma fabs_sign: "fabs a = NaN \<or> fle (Fin 0) (fabs a)"
  by (cases a) simp_all

lemma fminimum_sign:
  assumes "a = NaN \<or> fle (Fin 0) a" "b = NaN \<or> fle (Fin 0) b"
  shows "fminimum a b = NaN \<or> fle (Fin 0) (fminimum a b)"
  using assms by (auto simp add: fminimum_def)

lemma fminimum_NaN_left [simp]: "fminimum NaN b = NaN"
  by (simp add: fminimum_def)

lemma fminimum_NaN_right [simp]: "fminimum a NaN = NaN"
  by (simp add: fminimum_def)

lemma fadd_NaN_right [simp]: "fadd a NaN = NaN"
  by (cases a) simp_all

lemma fsub_NaN_left [simp]: "fsub NaN b = NaN"
  by (simp add: fsub_def)

lemma fsub_NaN_right [simp]: "fsub a NaN = NaN"
  by (simp add: fsub_def)

lemma fmul_NaN_right [simp]: "fmul a NaN = NaN"
  by (cases a) simp_all

lemma fsub_zero [simp]: "fsub a (Fin 0) = a"
  by (cases a) (simp_all add: fsub_def)

lemma fmul_zero_finite: "is_finite b \<Longrightarrow> fmul (Fin 0) b = Fin 0"
  by (cases b) simp_all

text \<open>
  What the function computes for a segment \<open>i\<close> with a predecessor and a successor:
  the \<open>np.minimum\<close> of \<open>pred_diff\<close> and \<open>succ_diff\<close>, which is NaN or
  non-negative. Both differences are taken between the elevation of segment \<open>i\<close> and an
  endpoint of a neighbour, so the slope of segment \<open>i\<close> itself does not occur in them.
\<close>

lemma min_seg_difference_interior_computed:
  assumes "D6 ''h_li'' = Some h" "D6 ''dh_fit_dx'' = Some s" "length s = length h"
    and "0 < i" "i + 1 < length h"
  shows "\<exists>sc. min_seg_difference D6 = Inr sc \<and> length sc = length h
           \<and> sc ! i = fminimum (pred_diff h s i) (succ_diff h s i)
           \<and> (sc ! i = NaN \<or> fle (Fin 0) (sc ! i))"
proof -
  have il: "i < length h" using assms(5) by simp
  obtain sc where sc: "min_seg_difference D6 = Inr sc" "length sc = length h"
      "sc ! i = seg_score h s i"
    using min_seg_difference_nth[OF assms(1-3) il] by blast
  have val: "sc ! i = fminimum (pred_diff h s i) (succ_diff h s i)"
    using sc(3) assms(4,5) by (simp add: seg_score_def)
  have "pred_diff h s i = NaN \<or> fle (Fin 0) (pred_diff h s i)"
    unfolding pred_diff_def by (rule fabs_sign)
  moreover have "succ_diff h s i = NaN \<or> fle (Fin 0) (succ_diff h s i)"
    unfolding succ_diff_def by (rule fabs_sign)
  ultimately have "sc ! i = NaN \<or> fle (Fin 0) (sc ! i)"
    unfolding val by (rule fminimum_sign)
  then show ?thesis using sc(1,2) val by simp
qed

text \<open>
  Claim C1: the score of a segment with both neighbours is the lesser of the two
  differences between the segment's own endpoints (its elevation extrapolated backward
  and forward with its own slope) and the elevations of its predecessor and successor,
  as the text above the function and its docstring say too. The code does not compute
  this. With elevations 0, 0, 0 and slopes 0, 1, 0 the endpoints of the middle segment
  are at -20 and 20, so its score is 20 (and 10 when the distance is half the spacing of
  20); the function returns 0 for it. It computes the two arrays of differences the text
  describes and stores each one position off: the difference that belongs to the
  forward endpoint of segment \<open>i - 1\<close> is stored at \<open>i\<close>, and the one that belongs to
  the backward endpoint of segment \<open>i + 1\<close> is stored at \<open>i\<close>.
\<close>

theorem min_seg_difference_own_slope:
  "min_seg_difference
     [''h_li'' \<mapsto> [Fin 0, Fin 0, Fin 0], ''dh_fit_dx'' \<mapsto> [Fin 0, Fin 1, Fin 0],
      ''x_atc'' \<mapsto> [Fin 0, Fin 20, Fin 40]] = Inr [Fin 0, Fin 0, Fin 20]
   \<and> spec_seg_score (Fin 20) [Fin 0, Fin 0, Fin 0] [Fin 0, Fin 1, Fin 0] 1 = Fin 20
   \<and> spec_seg_score (Fin 10) [Fin 0, Fin 0, Fin 0] [Fin 0, Fin 1, Fin 0] 1 = Fin 10"
  by (simp add: min_seg_difference_def getitem_def np_binop_def np_scalar_op_def
      assign_slice_def fsub_def fminimum_def spec_seg_score_def)

text \<open>
  Claim C3: the first segment does not get the comparison with its one neighbour. With
  elevations 0 and 5 and slopes 0 the comparison of the first segment with its successor
  is 5, and the code returns 0 for it: the zero that \<open>delta_h_seg\<close> starts with enters
  \<open>np.minimum\<close> as if it were the missing comparison. The last segment gets its one
  comparison, 5.
\<close>

theorem min_seg_difference_first_edge:
  "min_seg_difference
     [''h_li'' \<mapsto> [Fin 0, Fin 5], ''dh_fit_dx'' \<mapsto> [Fin 0, Fin 0],
      ''x_atc'' \<mapsto> [Fin 0, Fin 20]] = Inr [Fin 0, Fin 5]
   \<and> succ_diff [Fin 0, Fin 5] [Fin 0, Fin 0] 0 = Fin 5
   \<and> pred_diff [Fin 0, Fin 5] [Fin 0, Fin 0] 1 = Fin 5"
  by (simp add: min_seg_difference_def getitem_def np_binop_def np_scalar_op_def
      assign_slice_def fsub_def fminimum_def succ_diff_def pred_diff_def)

text \<open>
  In general, with at least two segments the score of the first segment is 0 or NaN
  whatever the elevations are, and the score of the last segment is its comparison with
  its predecessor.
\<close>

lemma min_seg_difference_edges:
  assumes "D6 ''h_li'' = Some h" "D6 ''dh_fit_dx'' = Some s" "length s = length h"
    and "2 \<le> length h"
  shows "\<exists>sc. min_seg_difference D6 = Inr sc \<and> length sc = length h
           \<and> (sc ! 0 = Fin 0 \<or> sc ! 0 = NaN)
           \<and> sc ! (length h - 1) = pred_diff h s (length h - 1)"
proof -
  have z: "seg_score h s 0 = fminimum (Fin 0) (succ_diff h s 0)"
    using assms(4) by (simp add: seg_score_def)
  have "succ_diff h s 0 = NaN \<or> fle (Fin 0) (succ_diff h s 0)"
    unfolding succ_diff_def by (rule fabs_sign)
  then have first: "seg_score h s 0 = Fin 0 \<or> seg_score h s 0 = NaN"
    unfolding z by (cases "succ_diff h s 0") (auto simp add: fminimum_def)
  have "\<not> (length h - 1) + 1 < length h" "length h - 1 \<noteq> 0"
    using assms(4) by arith+
  then have last: "seg_score h s (length h - 1) = pred_diff h s (length h - 1)"
    by (simp add: seg_score_def)
  have "0 < length h" "length h - 1 < length h"
    using assms(4) by arith+
  then show ?thesis
    using min_seg_difference_closed[OF assms(1-3)] first last by simp
qed

text \<open>
  Claim C8: a table of one segment gets the score 0 for it, whatever the elevation and
  the slope are (NaN included), and nothing is raised.
\<close>

theorem min_seg_difference_single:
  assumes "D6 ''h_li'' = Some [h0]" "D6 ''dh_fit_dx'' = Some [s0]"
  shows "min_seg_difference D6 = Inr [Fin 0]"
  using min_seg_difference_closed[OF assms] by (simp add: seg_score_def)

theorem min_seg_difference_single_witness:
  "[''h_li'' \<mapsto> [NaN], ''dh_fit_dx'' \<mapsto> [Fin 3], ''x_atc'' \<mapsto> [Fin 0]] ''h_li'' = Some [NaN]
   \<and> [''h_li'' \<mapsto> [NaN], ''dh_fit_dx'' \<mapsto> [Fin 3], ''x_atc'' \<mapsto> [Fin 0]] ''dh_fit_dx''
        = Some [Fin 3]
   \<and> min_seg_difference [''h_li'' \<mapsto> [NaN], ''dh_fit_dx'' \<mapsto> [Fin 3], ''x_atc'' \<mapsto> [Fin 0]]
        = Inr [Fin 0]"
  using min_seg_difference_single
    [of "[''h_li'' \<mapsto> [NaN], ''dh_fit_dx'' \<mapsto> [Fin 3], ''x_atc'' \<mapsto> [Fin 0]]" NaN "Fin 3"]
  by simp

text \<open>
  Claim C10: the score does not depend on \<open>x_atc\<close>. Two tables with the same \<open>h_li\<close>
  and \<open>dh_fit_dx\<close> entries get the same result (the same scores, or the same exception),
  whatever their other entries are, \<open>x_atc\<close> present or not.
\<close>

theorem min_seg_difference_ignores_x_atc:
  assumes "D6 ''h_li'' = D6' ''h_li''" "D6 ''dh_fit_dx'' = D6' ''dh_fit_dx''"
  shows "min_seg_difference D6 = min_seg_difference D6'"
  using assms by (simp add: min_seg_difference_def getitem_def)

theorem min_seg_difference_ignores_x_atc_witness:
  "[''h_li'' \<mapsto> [Fin 0, Fin 5], ''dh_fit_dx'' \<mapsto> [Fin 0, Fin 0], ''x_atc'' \<mapsto> [Fin 0, Fin 20]] ''h_li''
     = [''h_li'' \<mapsto> [Fin 0, Fin 5], ''dh_fit_dx'' \<mapsto> [Fin 0, Fin 0], ''x_atc'' \<mapsto> [Fin 7, NaN, Fin 3]] ''h_li''
   \<and> min_seg_difference
        [''h_li'' \<mapsto> [Fin 0, Fin 5], ''dh_fit_dx'' \<mapsto> [Fin 0, Fin 0], ''x_atc'' \<mapsto> [Fin 0, Fin 20]]
     = min_seg_difference
        [''h_li'' \<mapsto> [Fin 0, Fin 5], ''dh_fit_dx'' \<mapsto> [Fin 0, Fin 0], ''x_atc'' \<mapsto> [Fin 7, NaN, Fin 3]]"
  using min_seg_difference_ignores_x_atc
    [of "[''h_li'' \<mapsto> [Fin 0, Fin 5], ''dh_fit_dx'' \<mapsto> [Fin 0, Fin 0], ''x_atc'' \<mapsto> [Fin 0, Fin 20]]"
        "[''h_li'' \<mapsto> [Fin 0, Fin 5], ''dh_fit_dx'' \<mapsto> [Fin 0, Fin 0], ''x_atc'' \<mapsto> [Fin 7, NaN, Fin 3]]"]
  by simp

section \<open>Properties of the cross-track correction\<close>

lemma zip_as_positions:
  assumes "length m = length a"
  shows "zip a m = map (\<lambda>i. (a ! i, m ! i)) [0..<length a]"
  by (rule nth_equalityI) (use assms in auto)

lemma bool_index_positions:
  assumes "length m = length a"
  shows "bool_index a m = Inr (map (\<lambda>i. a ! i) (filter (\<lambda>i. m ! i) [0..<length a]))"
proof -
  have "map fst (filter snd (zip a m)) = map (\<lambda>i. a ! i) (filter (\<lambda>i. m ! i) [0..<length a])"
    by (simp add: zip_as_positions[OF assms] filter_map comp_def)
  then show ?thesis using assms by (simp add: bool_index_def)
qed

lemma filter_positions_cong:
  assumes "\<And>i. i < n \<Longrightarrow> P i = Q i"
  shows "filter P [0..<n] = filter Q [0..<n]"
  by (rule filter_cong) (use assms in auto)

text \<open>With columns of one size, the cell computes one value per segment that passes the filter.\<close>

lemma corrected_h_closed:
  assumes "Dl ''h_li'' = Some h" "Dl ''y_atc'' = Some y" "Dl ''dh_fit_dy'' = Some dy"
    and "Dl ''atl06_quality_summary'' = Some q"
    and "length y = length h" "length dy = length h" "length q = length h"
  shows "corrected_h Dl =
           Inr (map (\<lambda>i. fsub (h ! i) (fmul (y ! i) (dy ! i))) (good_segments q))"
proof -
  define good where "good = map (\<lambda>v. feq v (Fin 0)) q"
  define corr where "corr = map2 fmul y dy"
  define idx where "idx = filter (\<lambda>i. good ! i) [0..<length h]"
  have g: "quality_good Dl = Inr good"
    using assms(4) by (simp add: quality_good_def getitem_def good_def)
  have c: "atc_corr Dl = Inr corr"
    using assms(2,3,5,6) by (simp add: atc_corr_def getitem_def np_binop_same corr_def)
  have lg: "length good = length h" using assms(7) by (simp add: good_def)
  have lc: "length corr = length h" using assms(5,6) by (simp add: corr_def)
  have hg: "bool_index h good = Inr (map (\<lambda>i. h ! i) idx)"
    using bool_index_positions[of good h] lg by (simp add: idx_def)
  have cg: "bool_index corr good = Inr (map (\<lambda>i. corr ! i) idx)"
    using bool_index_positions[of good corr] lg lc by (simp add: idx_def)
  have idx_good: "idx = good_segments q"
    unfolding idx_def good_segments_def assms(7)
    by (rule filter_positions_cong) (use assms(7) in \<open>simp add: good_def\<close>)
  have in_range: "i < length h" if "i \<in> set idx" for i
    using that by (simp add: idx_def)
  have "map2 fsub (map (\<lambda>i. h ! i) idx) (map (\<lambda>i. corr ! i) idx)
          = map (\<lambda>i. fsub (h ! i) (corr ! i)) idx"
    by (induction idx) simp_all
  also have "\<dots> = map (\<lambda>i. fsub (h ! i) (fmul (y ! i) (dy ! i))) idx"
    by (rule map_cong) (use in_range assms(5,6) in \<open>simp_all add: corr_def\<close>)
  finally have "np_binop fsub (map (\<lambda>i. h ! i) idx) (map (\<lambda>i. corr ! i) idx)
          = Inr (map (\<lambda>i. fsub (h ! i) (fmul (y ! i) (dy ! i))) idx)"
    by (simp add: np_binop_same)
  then show ?thesis
    using g c hg cg assms(1) idx_good by (simp add: corrected_h_def getitem_def)
qed

lemma good_segments_position:
  assumes "i < length q" "feq (q ! i) (Fin 0)"
  shows "seg_position q i < length (good_segments q)"
    and "good_segments q ! seg_position q i = i"
proof -
  let ?P = "\<lambda>k. feq (q ! k) (Fin 0)"
  have "[0..<length q] = [0..<i] @ i # [Suc i..<length q]"
    using assms(1) by (metis upt_conv_Cons upt_add_eq_append le0 le_add_diff_inverse less_imp_le_nat add_0)
  then have split: "good_segments q = filter ?P [0..<i] @ i # filter ?P [Suc i..<length q]"
    using assms(2) by (simp add: good_segments_def)
  show "seg_position q i < length (good_segments q)"
    by (simp add: split seg_position_def)
  show "good_segments q ! seg_position q i = i"
    by (simp add: split seg_position_def nth_append)
qed

lemma corrected_h_segment:
  assumes "Dl ''h_li'' = Some h" "Dl ''y_atc'' = Some y" "Dl ''dh_fit_dy'' = Some dy"
    and "Dl ''atl06_quality_summary'' = Some q"
    and "length y = length h" "length dy = length h" "length q = length h"
    and "i < length h" "feq (q ! i) (Fin 0)"
  shows "\<exists>out. corrected_h Dl = Inr out \<and> seg_position q i < length out
           \<and> out ! seg_position q i = fsub (h ! i) (fmul (y ! i) (dy ! i))"
proof -
  have iq: "i < length q" using assms(7,8) by simp
  show ?thesis
    using corrected_h_closed[OF assms(1-7)] good_segments_position[OF iq assms(9)]
    by simp
qed

text \<open>
  Claim C2, as the code has it. For every segment \<open>i\<close> whose quality flag is 0 (the
  segments the cell keeps), the value computed for it is the elevation minus (offset
  times across-track slope); when the offset is 0 and the slope is a finite number,
  this is the elevation itself.
\<close>

theorem atc_correction:
  assumes "Dl ''h_li'' = Some h" "Dl ''y_atc'' = Some y" "Dl ''dh_fit_dy'' = Some dy"
    and "Dl ''atl06_quality_summary'' = Some q"
    and "length y = length h" "length dy = length h" "length q = length h"
    and "i < length h" "feq (q ! i) (Fin 0)"
  shows "\<exists>out. corrected_h Dl = Inr out \<and> seg_position q i < length out
           \<and> out ! seg_position q i = fsub (h ! i) (fmul (y ! i) (dy ! i))
           \<and> (y ! i = Fin 0 \<and> is_finite (dy ! i) \<longrightarrow> out ! seg_position q i = h ! i)"
proof -
  obtain out where out: "corrected_h Dl = Inr out" "seg_position q i < length out"
      "out ! seg_position q i = fsub (h ! i) (fmul (y ! i) (dy ! i))"
    using corrected_h_segment[OF assms] by blast
  have "out ! seg_position q i = h ! i" if "y ! i = Fin 0" "is_finite (dy ! i)"
    using out(3) that by (simp add: fmul_zero_finite)
  then show ?thesis using out by blast
qed

theorem atc_correction_witness:
  "\<exists>out. corrected_h
       [''h_li'' \<mapsto> [Fin 200, Fin 7], ''y_atc'' \<mapsto> [Fin 50, Fin 0],
        ''dh_fit_dy'' \<mapsto> [Fin (2 / 1000), Fin 3],
        ''atl06_quality_summary'' \<mapsto> [Fin 0, Fin 0]] = Inr out
     \<and> out ! 0 = Fin (1999 / 10) \<and> out ! 1 = Fin 7"
  using
    atc_correction
      [of "[''h_li'' \<mapsto> [Fin 200, Fin 7], ''y_atc'' \<mapsto> [Fin 50, Fin 0],
            ''dh_fit_dy'' \<mapsto> [Fin (2 / 1000), Fin 3],
            ''atl06_quality_summary'' \<mapsto> [Fin 0, Fin 0]]"
          "[Fin 200, Fin 7]" "[Fin 50, Fin 0]" "[Fin (2 / 1000), Fin 3]" "[Fin 0, Fin 0]" 0]
    atc_correction
      [of "[''h_li'' \<mapsto> [Fin 200, Fin 7], ''y_atc'' \<mapsto> [Fin 50, Fin 0],
            ''dh_fit_dy'' \<mapsto> [Fin (2 / 1000), Fin 3],
            ''atl06_quality_summary'' \<mapsto> [Fin 0, Fin 0]]"
          "[Fin 200, Fin 7]" "[Fin 50, Fin 0]" "[Fin (2 / 1000), Fin 3]" "[Fin 0, Fin 0]" 1]
  by (auto simp add: feq_def seg_position_def fsub_def)

text \<open>
  Claim C2 as written fails at offset 0 when the across-track slope is NaN: the product
  \<open>0 * NaN\<close> is NaN, and so is the corrected elevation, while the raw elevation is 5.
  The second segment, whose quality flag is 1, gets no corrected elevation at all.
\<close>

theorem atc_correction_counterexample:
  "corrected_h
     [''h_li'' \<mapsto> [Fin 5, Fin 7], ''y_atc'' \<mapsto> [Fin 0, Fin 0],
      ''dh_fit_dy'' \<mapsto> [NaN, Fin 0], ''atl06_quality_summary'' \<mapsto> [Fin 0, Fin 1]]
   = Inr [NaN]"
  by (simp add: corrected_h_def quality_good_def atc_corr_def getitem_def np_binop_def
      bool_index_def feq_def fsub_def)

section \<open>Propagation of NaN\<close>

lemma seg_score_nan_self:
  assumes "h ! i = NaN" "2 \<le> length h" "i < length h"
  shows "seg_score h s i = NaN"
proof (cases "i + 1 < length h")
  case True
  then show ?thesis using assms(1) by (simp add: seg_score_def succ_diff_def)
next
  case False
  then have "i \<noteq> 0" using assms(2) by arith
  then show ?thesis using False assms(1) by (simp add: seg_score_def pred_diff_def)
qed

lemma seg_score_nan_before:
  assumes "h ! i = NaN \<or> s ! i = NaN" "0 < i" "i < length h"
  shows "seg_score h s (i - 1) = NaN"
proof -
  have "(i - 1) + 1 = i" using assms(2) by simp
  then have "succ_diff h s (i - 1) = NaN"
    using assms(1) by (auto simp add: succ_diff_def)
  moreover have "(i - 1) + 1 < length h" using assms(2,3) by simp
  ultimately show ?thesis by (simp add: seg_score_def)
qed

lemma seg_score_nan_after:
  assumes "h ! i = NaN \<or> s ! i = NaN" "i + 1 < length h"
  shows "seg_score h s (i + 1) = NaN"
proof -
  have "pred_diff h s (i + 1) = NaN"
    using assms(1) by (auto simp add: pred_diff_def)
  then show ?thesis by (simp add: seg_score_def)
qed

text \<open>
  What the code propagates, in a table of at least two segments: a NaN elevation of
  segment \<open>i\<close> reaches the score of \<open>i\<close> and the scores of both neighbours; a NaN
  along-track slope of segment \<open>i\<close> reaches the scores of both neighbours; and a NaN
  elevation, across-track offset or across-track slope of a segment \<open>i\<close> that passes
  the quality filter reaches its corrected elevation.
\<close>

lemma nan_propagation_computed:
  assumes "D ''h_li'' = Some h" "D ''dh_fit_dx'' = Some s" "D ''y_atc'' = Some y"
    and "D ''dh_fit_dy'' = Some dy" "D ''atl06_quality_summary'' = Some q"
    and "length s = length h" "length y = length h" "length dy = length h"
    and "length q = length h" "2 \<le> length h" "i < length h"
  shows "\<exists>sc out. min_seg_difference D = Inr sc \<and> corrected_h D = Inr out
           \<and> length sc = length h
           \<and> (h ! i = NaN \<longrightarrow> sc ! i = NaN)
           \<and> (h ! i = NaN \<or> s ! i = NaN \<longrightarrow>
                (0 < i \<longrightarrow> sc ! (i - 1) = NaN) \<and> (i + 1 < length h \<longrightarrow> sc ! (i + 1) = NaN))
           \<and> ((h ! i = NaN \<or> y ! i = NaN \<or> dy ! i = NaN) \<and> feq (q ! i) (Fin 0) \<longrightarrow>
                out ! seg_position q i = NaN)"
proof -
  let ?sc = "map (seg_score h s) [0..<length h]"
  let ?out = "map (\<lambda>i. fsub (h ! i) (fmul (y ! i) (dy ! i))) (good_segments q)"
  have sc: "min_seg_difference D = Inr ?sc"
    by (rule min_seg_difference_closed[OF assms(1,2,6)])
  have out: "corrected_h D = Inr ?out"
    by (rule corrected_h_closed[OF assms(1,3,4,5,7,8,9)])
  have a: "?sc ! i = NaN" if "h ! i = NaN"
    using seg_score_nan_self[OF that assms(10,11)] assms(11) by simp
  have b: "?sc ! (i - 1) = NaN" if "h ! i = NaN \<or> s ! i = NaN" "0 < i"
    using seg_score_nan_before[OF that assms(11)] assms(11) by simp
  have c: "?sc ! (i + 1) = NaN" if "h ! i = NaN \<or> s ! i = NaN" "i + 1 < length h"
    using seg_score_nan_after[OF that] that(2) by simp
  have d: "?out ! seg_position q i = NaN"
    if "h ! i = NaN \<or> y ! i = NaN \<or> dy ! i = NaN" "feq (q ! i) (Fin 0)"
  proof -
    have iq: "i < length q" using assms(9,11) by simp
    have "?out ! seg_position q i = fsub (h ! i) (fmul (y ! i) (dy ! i))"
      using good_segments_position[OF iq that(2)] by simp
    then show ?thesis using that(1) by auto
  qed
  show ?thesis
    using sc out a b c d by (intro exI[of _ ?sc] exI[of _ ?out]) simp
qed

text \<open>
  Claim C6: a NaN slope of segment \<open>i\<close> makes the score of segment \<open>i\<close> itself NaN.
  The code does not do this. With elevations 0, 0, 0 and slopes 0, NaN, 0 both
  endpoints of the middle segment are NaN, and so is its score as the text above the
  function defines it; the function returns 0 for the middle segment, because the
  differences are stored one position off and the middle segment's own slope does not
  reach its score. The scores of the two neighbours are NaN.
\<close>

theorem nan_slope_own_score:
  "min_seg_difference
     [''h_li'' \<mapsto> [Fin 0, Fin 0, Fin 0], ''dh_fit_dx'' \<mapsto> [Fin 0, NaN, Fin 0]]
     = Inr [NaN, Fin 0, NaN]
   \<and> spec_seg_score (Fin 20) [Fin 0, Fin 0, Fin 0] [Fin 0, NaN, Fin 0] 1 = NaN"
  by (simp add: min_seg_difference_def getitem_def np_binop_def np_scalar_op_def
      assign_slice_def fsub_def fminimum_def spec_seg_score_def)

section \<open>Properties of the reader\<close>

subsection \<open>Fill values\<close>

lemma length_np_eq_scalar [simp]: "length (np_eq_scalar raw fv) = array_size raw"
  by (cases raw; cases fv) simp_all

lemma length_array_values [simp]: "length (array_values raw) = array_size raw"
  by (cases raw) simp_all

lemma length_astype_float [simp]: "length (astype_float raw) = array_size raw"
  by (cases raw) simp_all

text \<open>What one pass of the inner loop stores, for the entries that \<open>index\<close> selects.\<close>

lemma read_dataset_result:
  assumes "h5f name = Some dset" "read_raw index (data dset) = Inr raw"
  shows "read_dataset h5f name index =
           Inr (case attrs dset ''_FillValue'' of
                  None \<Rightarrow> raw
                | Some fv \<Rightarrow> FloatArr (set_nan_where (astype_float raw) (np_eq_scalar raw fv)))"
  using assms by (simp add: read_dataset_def split: option.splits)

subsection \<open>Missing fields\<close>

lemma read_raw_valid:
  assumes "valid_index index"
  shows "\<exists>raw. read_raw index a = Inr raw"
  using assms
  by (auto simp add: read_raw_def valid_index_def slice_positions_def Let_def
      split: option.splits)

lemma read_dataset_absent: "h5f name = None \<Longrightarrow> read_dataset h5f name index = Inl (KeyError name)"
  by (simp add: read_dataset_def)

lemma read_dataset_present:
  assumes "valid_index index" "h5f name = Some dset"
  shows "\<exists>a. read_dataset h5f name index = Inr a"
proof -
  obtain raw where "read_raw index (data dset) = Inr raw"
    using read_raw_valid[OF assms(1)] by blast
  then show ?thesis using assms(2) by (simp add: read_dataset_def split: option.splits)
qed

lemma read_dataset_succeeds_present:
  "read_dataset h5f name index = Inr a \<Longrightarrow> \<exists>dset. h5f name = Some dset"
  by (cases "h5f name") (simp_all add: read_dataset_def)

text \<open>With an index that h5py accepts, a group is read in full or the read raises KeyError.\<close>

lemma read_group_outcome:
  assumes "valid_index index"
  shows "(\<exists>D. read_group h5f beam index key dss D0 = Inr D)
       \<or> (\<exists>p. read_group h5f beam index key dss D0 = Inl (KeyError p))"
proof (induction dss arbitrary: D0)
  case Nil
  then show ?case by simp
next
  case (Cons ds rest)
  show ?case
  proof (cases "h5f (ds_name beam key ds)")
    case None
    then show ?thesis by (simp add: read_dataset_absent)
  next
    case (Some dset)
    then obtain a where "read_dataset h5f (ds_name beam key ds) index = Inr a"
      using read_dataset_present[OF assms] by blast
    then have step: "read_group h5f beam index key (ds # rest) D0
        = read_group h5f beam index key rest (D0(ds \<mapsto> Arr a))"
      by simp
    show ?thesis unfolding step by (rule Cons.IH)
  qed
qed

lemma read_group_succeeds_present:
  assumes "read_group h5f beam index key dss D0 = Inr D" "ds \<in> set dss"
  shows "\<exists>dset. h5f (ds_name beam key ds) = Some dset"
  using assms
proof (induction dss arbitrary: D0)
  case Nil
  then show ?case by simp
next
  case (Cons d rest)
  then obtain a where a: "read_dataset h5f (ds_name beam key d) index = Inr a"
    by (cases "read_dataset h5f (ds_name beam key d) index") simp_all
  then have rest: "read_group h5f beam index key rest (D0(d \<mapsto> Arr a)) = Inr D"
    using Cons.prems(1) by simp
  show ?case
  proof (cases "ds = d")
    case True
    then show ?thesis using read_dataset_succeeds_present[OF a] by simp
  next
    case False
    then have "ds \<in> set rest" using Cons.prems(2) by simp
    then show ?thesis using Cons.IH[OF rest] by simp
  qed
qed

lemma read_fields_outcome:
  assumes "valid_index index"
  shows "(\<exists>D. read_fields h5f beam index fd D0 = Inr D)
       \<or> (\<exists>p. read_fields h5f beam index fd D0 = Inl (KeyError p))"
proof (induction fd arbitrary: D0)
  case Nil
  then show ?case by simp
next
  case (Cons g rest)
  obtain key dss where g: "g = (key, dss)" by (cases g)
  consider D1 where "read_group h5f beam index key dss D0 = Inr D1"
    | p where "read_group h5f beam index key dss D0 = Inl (KeyError p)"
    using read_group_outcome[OF assms, of h5f beam key dss D0] by blast
  then show ?case
  proof cases
    case 1
    then have step: "read_fields h5f beam index (g # rest) D0
        = read_fields h5f beam index rest D1"
      by (simp add: g)
    show ?thesis unfolding step by (rule Cons.IH)
  next
    case 2
    then show ?thesis by (simp add: g)
  qed
qed

lemma read_fields_succeeds_present:
  assumes "read_fields h5f beam index fd D0 = Inr D" "(key, dss) \<in> set fd" "ds \<in> set dss"
  shows "\<exists>dset. h5f (ds_name beam key ds) = Some dset"
  using assms(1,2)
proof (induction fd arbitrary: D0)
  case Nil
  then show ?case by simp
next
  case (Cons g rest)
  obtain k dd where g: "g = (k, dd)" by (cases g)
  obtain D1 where D1: "read_group h5f beam index k dd D0 = Inr D1"
    using Cons.prems(1) by (cases "read_group h5f beam index k dd D0") (simp_all add: g)
  then have rest: "read_fields h5f beam index rest D1 = Inr D"
    using Cons.prems(1) by (simp add: g)
  show ?case
  proof (cases "(key, dss) = (k, dd)")
    case True
    then show ?thesis using read_group_succeeds_present[OF D1, of ds] assms(3) by simp
  next
    case False
    then have "(key, dss) \<in> set rest" using Cons.prems(2) by (auto simp add: g)
    then show ?thesis using Cons.IH[OF rest] by simp
  qed
qed

lemma read_fields_missing:
  assumes "(key, dss) \<in> set fd" "ds \<in> set dss" "h5f (ds_name beam key ds) = None"
  shows "\<exists>e. read_fields h5f beam index fd D0 = Inl e
           \<and> (valid_index index \<longrightarrow> (\<exists>p. e = KeyError p))"
proof -
  have "\<not> (\<exists>D. read_fields h5f beam index fd D0 = Inr D)"
    using read_fields_succeeds_present[OF _ assms(1,2)] assms(3) by fastforce
  then obtain e where e: "read_fields h5f beam index fd D0 = Inl e"
    by (cases "read_fields h5f beam index fd D0") auto
  have "\<exists>p. e = KeyError p" if "valid_index index"
    using read_fields_outcome[OF that, of h5f beam fd D0] e by auto
  then show ?thesis using e by blast
qed

lemma atl06_to_dict_read_error:
  assumes "fs filename = Some h5f"
    and "read_fields h5f beam index (requested field_dict) Map.empty = Inl e"
  shows "atl06_to_dict fs Proj filename beam field_dict index epsg = Inl e"
  using assms by (simp add: atl06_to_dict_def)

lemma valid_batch_index: "valid_index (Some batch_index)"
  by (simp add: valid_index_def batch_index_def)

text \<open>
  Claim C5. When a requested dataset (or a group on its path) is absent from the file,
  the read raises, for every beam, every choice of fields and every index, and the
  exception is KeyError whenever the index is one that h5py accepts. When the call is
  the one of the loop over the files, the exception is KeyError, and the loop records
  the file with it and goes on with the remaining files, \<open>D_dict\<close> unchanged.
\<close>

theorem missing_field_is_skipped:
  assumes "fs file = Some h5f"
    and "(key, dss) \<in> set (requested field_dict)" "ds \<in> set dss"
    and "h5f (ds_name beam key ds) = None"
  shows "\<exists>e. atl06_to_dict fs Proj file beam field_dict index epsg = Inl e
           \<and> (valid_index index \<longrightarrow> (\<exists>p. e = KeyError p))
           \<and> (beam = ''/gt2l'' \<and> field_dict = None \<and> index = Some batch_index
                \<and> epsg = Some 3031 \<longrightarrow>
              (\<exists>p. e = KeyError p)
              \<and> read_D_dict fs Proj (file # files) (D_dict, out)
                  = read_D_dict fs Proj files (D_dict, out @ [(file, e)]))"
proof -
  obtain e where e: "read_fields h5f beam index (requested field_dict) Map.empty = Inl e"
      "valid_index index \<longrightarrow> (\<exists>p. e = KeyError p)"
    using read_fields_missing[of key dss "requested field_dict" ds h5f beam index Map.empty]
      assms(2-4) by blast
  have run: "atl06_to_dict fs Proj file beam field_dict index epsg = Inl e"
    using assms(1) e(1) by (simp add: atl06_to_dict_read_error)
  have "(\<exists>p. e = KeyError p)
        \<and> read_D_dict fs Proj (file # files) (D_dict, out)
            = read_D_dict fs Proj files (D_dict, out @ [(file, e)])"
    if call: "beam = ''/gt2l''" "field_dict = None" "index = Some batch_index"
      "epsg = Some 3031"
  proof -
    obtain p where "e = KeyError p" using e(2) call(3) valid_batch_index by auto
    then show ?thesis using run call by simp
  qed
  then show ?thesis using run e(2) by blast
qed

theorem missing_field_is_skipped_witness:
  "\<exists>p. atl06_to_dict [''ATL06_20190205041106_05910210_209_01.h5'' \<mapsto> Map.empty]
          (\<lambda>code. Inl ProjError) ''ATL06_20190205041106_05910210_209_01.h5''
          ''/gt2l'' None (Some batch_index) (Some 3031) = Inl (KeyError p)
     \<and> read_D_dict [''ATL06_20190205041106_05910210_209_01.h5'' \<mapsto> Map.empty]
          (\<lambda>code. Inl ProjError) [''ATL06_20190205041106_05910210_209_01.h5'']
          (Map.empty, [])
        = Inr (Map.empty, [(''ATL06_20190205041106_05910210_209_01.h5'', KeyError p)])"
  using missing_field_is_skipped
    [where ?fs = "[''ATL06_20190205041106_05910210_209_01.h5'' \<mapsto> Map.empty]"
       and ?file = "''ATL06_20190205041106_05910210_209_01.h5''" and ?h5f = Map.empty
       and ?index = "Some batch_index" and ?field_dict = None
       and ?dss = "[''latitude'', ''longitude'', ''h_li'', ''atl06_quality_summary'']"
       and ?key = None and ?ds = "''latitude''" and ?beam = "''/gt2l''"
       and ?Proj = "\<lambda>code. Inl ProjError" and ?epsg = "Some 3031" and ?files = "[]"
       and ?D_dict = Map.empty and ?out = "[]"]
  by (auto simp add: requested_def default_field_dict_def)

subsection \<open>File names that do not match the pattern\<close>

text \<open>
  Claim C9. When the file name does not match the pattern, the reader raises: the call
  returns an exception and no dictionary. When the file opens and the fields are read
  and projected, the exception is the TypeError of \<open>temp['rgt']\<close> on \<open>None\<close>. The
  exception is the whole effect of the call, so a caller that handles it can go on.
\<close>

theorem unparseable_name_fails:
  assumes "file_re_search filename = None"
  shows "\<exists>e. atl06_to_dict fs Proj filename beam field_dict index epsg = Inl e
           \<and> (fs filename = Some h5f
                \<and> read_fields h5f beam index (requested field_dict) Map.empty = Inr D
                \<and> project Proj epsg D = Inr D' \<longrightarrow> e = TypeError)"
proof (cases "fs filename")
  case None
  then show ?thesis by (simp add: atl06_to_dict_def)
next
  case (Some f)
  show ?thesis
  proof (cases "read_fields f beam index (requested field_dict) Map.empty")
    case (Inl e)
    then show ?thesis using Some by (auto simp add: atl06_to_dict_def)
  next
    case (Inr D1)
    show ?thesis
    proof (cases "project Proj epsg D1")
      case (Inl e)
      then show ?thesis using Some Inr by (auto simp add: atl06_to_dict_def)
    next
      case Inr2: (Inr D2)
      then show ?thesis using Some Inr assms by (auto simp add: atl06_to_dict_def)
    qed
  qed
qed

theorem unparseable_name_fails_witness:
  "file_re_search ''ATL06_granule.h5'' = None
   \<and> atl06_to_dict [''ATL06_granule.h5'' \<mapsto> Map.empty] (\<lambda>code. Inl ProjError)
        ''ATL06_granule.h5'' ''gt2l'' (Some []) None None = Inl TypeError"
proof -
  have no_match: "file_re_search ''ATL06_granule.h5'' = None"
    by (simp add: file_re_match_at_def strip_prefix_def is_digit_def)
  show ?thesis
    using unparseable_name_fails
      [OF no_match, of "[''ATL06_granule.h5'' \<mapsto> Map.empty]" "\<lambda>code. Inl ProjError"
          "''gt2l''" "Some []" None None Map.empty Map.empty Map.empty]
      no_match
    by (auto simp add: requested_def project_def)
qed

text \<open>
  The loop that fills \<open>D_dict\<close> catches KeyError only: there, the TypeError of a file
  name that does not match ends the loop. The later loops of the notebook, which fill
  \<open>D_2l\<close> and \<open>D_2r\<close>, catch every exception and go on.
\<close>

lemma read_D_dict_type_error:
  assumes "atl06_to_dict fs Proj file ''/gt2l'' None (Some batch_index) (Some 3031)
             = Inl TypeError"
  shows "read_D_dict fs Proj (file # files) (D_dict, out) = Inl TypeError"
  using assms by simp

subsection \<open>Values of the fields that were read\<close>

lemma slice_positions_in_range:
  assumes "slice_positions sl n = Inr ps" "p \<in> set ps"
  shows "p < n"
proof -
  define k where "k = (case step sl of None \<Rightarrow> 1 | Some k \<Rightarrow> k)"
  define lo where "lo = (case start sl of None \<Rightarrow> 0 | Some a \<Rightarrow> clip_bound n a)"
  define hi where "hi = (case stop sl of None \<Rightarrow> n | Some b \<Rightarrow> clip_bound n b)"
  define cnt where "cnt = (if hi \<le> lo then 0 else (hi - lo + nat k - 1) div nat k)"
  have k: "1 \<le> k" and ps: "ps = map (\<lambda>j. lo + j * nat k) [0..<cnt]"
    using assms(1)
    by (auto simp add: slice_positions_def Let_def k_def lo_def hi_def cnt_def
        split: if_splits)
  have hi: "hi \<le> n"
    by (auto simp add: hi_def clip_bound_def split: option.splits)
  obtain j where j: "j < cnt" "p = lo + j * nat k"
    using assms(2) ps by auto
  then have lt: "lo < hi" and cnt: "cnt = (hi - lo + nat k - 1) div nat k"
    by (auto simp add: cnt_def split: if_splits)
  have kpos: "0 < nat k" using k by simp
  have "Suc j \<le> cnt" using j(1) by simp
  then have "Suc j * nat k \<le> cnt * nat k" by (rule mult_le_mono1)
  also have "\<dots> \<le> hi - lo + nat k - 1" unfolding cnt by (rule div_times_less_eq_dividend)
  finally have "j * nat k + nat k \<le> hi - lo + nat k - 1" by simp
  then have "j * nat k < hi - lo" using kpos lt by arith
  then show ?thesis using j(2) hi lt by arith
qed

lemma np_eq_scalar_select:
  assumes "\<And>p. p \<in> set ps \<Longrightarrow> p < array_size a"
  shows "np_eq_scalar (select_positions ps a) fv = map (\<lambda>p. np_eq_scalar a fv ! p) ps"
  using assms by (cases a; cases fv) (simp_all add: select_positions_def)

lemma fill_free_read_raw:
  assumes "fill_free dset a" "read_raw index a = Inr raw"
  shows "fill_free dset raw"
proof (cases index)
  case None
  then show ?thesis using assms by (simp add: read_raw_def)
next
  case (Some sl)
  then obtain ps where ps: "slice_positions sl (array_size a) = Inr ps"
      and raw: "raw = select_positions ps a"
    using assms(2)
    by (cases "slice_positions sl (array_size a)") (auto simp add: read_raw_def)
  have in_range: "p < array_size a" if "p \<in> set ps" for p
    using slice_positions_in_range[OF ps that] .
  show ?thesis
  proof (cases "attrs dset ''_FillValue''")
    case None
    then show ?thesis by (simp add: fill_free_def)
  next
    case (Some fv)
    then have all: "list_all (\<lambda>b. b = False) (np_eq_scalar a fv)"
      using assms(1) by (simp add: fill_free_def)
    have "np_eq_scalar a fv ! p = False" if "p \<in> set ps" for p
      using all in_range[OF that] by (simp add: list_all_length)
    then have "list_all (\<lambda>b. b = False) (map (\<lambda>p. np_eq_scalar a fv ! p) ps)"
      by (simp add: list_all_iff)
    then show ?thesis
      using Some by (simp add: fill_free_def raw np_eq_scalar_select[OF in_range])
  qed
qed

lemma set_nan_where_none:
  assumes "list_all (\<lambda>b. b = False) m" "length m = length a"
  shows "set_nan_where a m = a"
  using assms(2,1) unfolding set_nan_where_def
  by (induction m a rule: list_induct2) simp_all

lemma set_nan_where_nth:
  assumes "length m = length a" "i < length a"
  shows "set_nan_where a m ! i = (if m ! i then NaN else a ! i)"
  using assms by (simp add: set_nan_where_def)

text \<open>Integers of magnitude up to \<open>2 ^ 53\<close> are converted to float64 without change.\<close>

lemma float64_magnitude_exact:
  assumes "n \<le> 2 ^ 53"
  shows "float64_magnitude n = n"
proof (cases "n < 2 ^ 53")
  case True
  then show ?thesis by (simp add: float64_magnitude_def)
next
  case False
  then have n: "n = 2 ^ 53" using assms by simp
  have "excess_bits n = 1" unfolding n by simp
  then show ?thesis by (simp add: float64_magnitude_def n)
qed

lemma int_to_float64_exact:
  assumes "\<bar>x\<bar> \<le> 2 ^ 53"
  shows "int_to_float64 x = Fin (real_of_int x)"
proof -
  have "nat \<bar>x\<bar> \<le> 2 ^ 53" using assms by (simp add: nat_le_iff)
  then have "float64_magnitude (nat \<bar>x\<bar>) = nat \<bar>x\<bar>" by (rule float64_magnitude_exact)
  then show ?thesis by (auto simp add: int_to_float64_def abs_if split: if_splits)
qed

text \<open>Beyond that magnitude the conversion rounds: \<open>2 ^ 53 + 1\<close> becomes \<open>2 ^ 53\<close>.\<close>

lemma int_to_float64_rounds: "int_to_float64 9007199254740993 = Fin 9007199254740992"
  by (simp add: int_to_float64_def float64_magnitude_def)

lemma astype_float_exact:
  assumes "cast_exact dset raw" "attrs dset ''_FillValue'' = Some fv"
  shows "astype_float raw = array_values raw"
proof (cases raw)
  case (IntArr xs)
  then have "list_all (\<lambda>x. \<bar>x\<bar> \<le> 2 ^ 53) xs"
    using assms by (simp add: cast_exact_def)
  then have "map int_to_float64 xs = map (\<lambda>x. Fin (real_of_int x)) xs"
    by (induction xs) (simp_all add: int_to_float64_exact)
  then show ?thesis using IntArr by simp
next
  case (FloatArr xs)
  then show ?thesis by simp
qed

lemma cast_exact_read_raw:
  assumes "cast_exact dset a" "read_raw index a = Inr raw"
  shows "cast_exact dset raw"
proof (cases index)
  case None
  then show ?thesis using assms by (simp add: read_raw_def)
next
  case (Some sl)
  then obtain ps where ps: "slice_positions sl (array_size a) = Inr ps"
      and raw: "raw = select_positions ps a"
    using assms(2)
    by (cases "slice_positions sl (array_size a)") (auto simp add: read_raw_def)
  have in_range: "p < array_size a" if "p \<in> set ps" for p
    using slice_positions_in_range[OF ps that] .
  show ?thesis
  proof (cases "attrs dset ''_FillValue''")
    case None
    then show ?thesis by (simp add: cast_exact_def)
  next
    case fv: (Some fv)
    show ?thesis
    proof (cases a)
      case (IntArr xs)
      then have all: "list_all (\<lambda>x. \<bar>x\<bar> \<le> 2 ^ 53) xs"
        using assms(1) fv by (simp add: cast_exact_def)
      have "\<bar>xs ! p\<bar> \<le> 2 ^ 53" if "p \<in> set ps" for p
        using all in_range[OF that] IntArr by (simp add: list_all_length)
      then have "list_all (\<lambda>x. \<bar>x\<bar> \<le> 2 ^ 53) (map (\<lambda>p. xs ! p) ps)"
        by (simp add: list_all_iff)
      then show ?thesis using fv IntArr by (simp add: cast_exact_def raw select_positions_def)
    next
      case (FloatArr xs)
      then show ?thesis using fv by (simp add: cast_exact_def raw select_positions_def)
    qed
  qed
qed

lemma fill_free_values_kept:
  assumes "h5f name = Some dset" "read_raw index (data dset) = Inr raw"
    and "fill_free dset raw" "cast_exact dset raw"
    and "read_dataset h5f name index = Inr a"
  shows "array_values a = array_values raw"
proof (cases "attrs dset ''_FillValue''")
  case None
  then show ?thesis using assms(1,2,5) by (simp add: read_dataset_def)
next
  case (Some fv)
  then have "list_all (\<lambda>b. b = False) (np_eq_scalar raw fv)"
    using assms(3) by (simp add: fill_free_def)
  then have "set_nan_where (astype_float raw) (np_eq_scalar raw fv) = astype_float raw"
    by (rule set_nan_where_none) simp
  then show ?thesis
    using assms(1,2,5) Some astype_float_exact[OF assms(4) Some]
    by (auto simp add: read_dataset_def)
qed

text \<open>
  The entry under the name \<open>ds\<close> holds what reading the dataset \<open>ds\<close> of the group
  \<open>key\<close> returned. Reading a group keeps this, or establishes it, as long as the group
  does not read another dataset into the same entry.
\<close>

lemma read_group_entry:
  assumes "read_group h5f beam index k dd D0 = Inr D"
    and "ds \<in> set dd \<longrightarrow> k = key"
    and "(\<exists>a. read_dataset h5f (ds_name beam key ds) index = Inr a \<and> D0 ds = Some (Arr a))
         \<or> ds \<in> set dd"
  shows "\<exists>a. read_dataset h5f (ds_name beam key ds) index = Inr a \<and> D ds = Some (Arr a)"
  using assms
proof (induction dd arbitrary: D0)
  case Nil
  then show ?case by simp
next
  case (Cons d rest)
  obtain a where a: "read_dataset h5f (ds_name beam k d) index = Inr a"
    using Cons.prems(1) by (cases "read_dataset h5f (ds_name beam k d) index") simp_all
  then have rest: "read_group h5f beam index k rest (D0(d \<mapsto> Arr a)) = Inr D"
    using Cons.prems(1) by simp
  have key: "ds \<in> set rest \<longrightarrow> k = key" using Cons.prems(2) by simp
  have "(\<exists>a'. read_dataset h5f (ds_name beam key ds) index = Inr a'
            \<and> (D0(d \<mapsto> Arr a)) ds = Some (Arr a'))
        \<or> ds \<in> set rest"
  proof (cases "ds = d")
    case True
    then have "k = key" using Cons.prems(2) by simp
    then show ?thesis using a True by simp
  next
    case False
    then show ?thesis using Cons.prems(3) by auto
  qed
  then show ?case by (rule Cons.IH[OF rest key])
qed

lemma read_fields_entry:
  assumes "read_fields h5f beam index fd D0 = Inr D"
    and "\<forall>(key', dss') \<in> set fd. ds \<in> set dss' \<longrightarrow> key' = key"
    and "(\<exists>a. read_dataset h5f (ds_name beam key ds) index = Inr a \<and> D0 ds = Some (Arr a))
         \<or> (\<exists>dss. (key, dss) \<in> set fd \<and> ds \<in> set dss)"
  shows "\<exists>a. read_dataset h5f (ds_name beam key ds) index = Inr a \<and> D ds = Some (Arr a)"
  using assms
proof (induction fd arbitrary: D0)
  case Nil
  then show ?case by simp
next
  case (Cons g rest)
  obtain k dd where g: "g = (k, dd)" by (cases g)
  obtain D1 where D1: "read_group h5f beam index k dd D0 = Inr D1"
    using Cons.prems(1) by (cases "read_group h5f beam index k dd D0") (simp_all add: g)
  then have rest: "read_fields h5f beam index rest D1 = Inr D"
    using Cons.prems(1) by (simp add: g)
  have uniq: "\<forall>(key', dss') \<in> set rest. ds \<in> set dss' \<longrightarrow> key' = key"
    using Cons.prems(2) by simp
  have here: "ds \<in> set dd \<longrightarrow> k = key"
    using Cons.prems(2) by (simp add: g)
  have "(\<exists>a. read_dataset h5f (ds_name beam key ds) index = Inr a \<and> D1 ds = Some (Arr a))
        \<or> (\<exists>dss. (key, dss) \<in> set rest \<and> ds \<in> set dss)"
  proof (cases "(\<exists>a. read_dataset h5f (ds_name beam key ds) index = Inr a \<and> D0 ds = Some (Arr a))
         \<or> ds \<in> set dd")
    case True
    then show ?thesis using read_group_entry[OF D1 here] by blast
  next
    case False
    then show ?thesis using Cons.prems(3) by (auto simp add: g)
  qed
  then show ?case by (rule Cons.IH[OF rest uniq])
qed

lemma project_none [simp]: "project Proj None D = Inr D"
  by (simp add: project_def)

text \<open>The projection writes the entries \<open>x\<close> and \<open>y\<close> and no other.\<close>

lemma project_keeps:
  assumes "project Proj epsg D = Inr D'" "epsg \<noteq> None \<longrightarrow> ds \<notin> {''x'', ''y''}"
  shows "D' ds = D ds"
proof (cases epsg)
  case None
  then show ?thesis using assms(1) by simp
next
  case (Some code)
  then have "ds \<noteq> ''x''" "ds \<noteq> ''y''" using assms(2) by auto
  then show ?thesis
    using assms(1) Some
    by (auto simp add: project_def bind_err_def split: sum.splits)
qed

text \<open>
  After a read that returned: the entry of a requested dataset whose name is requested
  in one group only, and is not a name the reader writes itself, is what the inner loop
  stored for it.
\<close>

lemma atl06_to_dict_entry:
  assumes "atl06_to_dict fs Proj filename beam field_dict index epsg = Inr D"
    and "fs filename = Some h5f"
    and "(key, dss) \<in> set (requested field_dict)" "ds \<in> set dss"
    and "\<forall>(key', dss') \<in> set (requested field_dict). ds \<in> set dss' \<longrightarrow> key' = key"
    and "ds \<notin> {''rgt'', ''cycle'', ''beam''}"
    and "epsg \<noteq> None \<longrightarrow> ds \<notin> {''x'', ''y''}"
  shows "\<exists>a. read_dataset h5f (ds_name beam key ds) index = Inr a \<and> D ds = Some (Arr a)"
proof -
  obtain D1 where D1: "read_fields h5f beam index (requested field_dict) Map.empty = Inr D1"
    using assms(1,2)
    by (cases "read_fields h5f beam index (requested field_dict) Map.empty")
      (simp_all add: atl06_to_dict_def)
  obtain D2 where D2: "project Proj epsg D1 = Inr D2"
    using assms(1,2) D1
    by (cases "project Proj epsg D1") (simp_all add: atl06_to_dict_def)
  obtain temp where "file_re_search filename = Some temp"
    using assms(1,2) D1 D2
    by (cases "file_re_search filename") (simp_all add: atl06_to_dict_def)
  then have D: "D = D2(''rgt'' \<mapsto> PyInt (py_int (rgt temp)),
                       ''cycle'' \<mapsto> PyInt (py_int (cycle temp)),
                       ''beam'' \<mapsto> PyStr beam)"
    using assms(1,2) D1 D2 by (simp add: atl06_to_dict_def)
  have "D ds = D2 ds" using assms(6) by (simp add: D)
  then have same: "D ds = D1 ds" using project_keeps[OF D2 assms(7)] by simp
  have "\<exists>a. read_dataset h5f (ds_name beam key ds) index = Inr a \<and> D1 ds = Some (Arr a)"
    using read_fields_entry[OF D1 assms(5)] assms(3,4) by blast
  then show ?thesis using same by simp
qed

text \<open>
  Claim C4, as the code has it. Take a read that returned and a requested field whose
  name is requested in one group only and is not a name the reader writes itself
  (\<open>rgt\<close>, \<open>cycle\<close>, \<open>beam\<close>, and \<open>x\<close>, \<open>y\<close> when \<open>epsg\<close> is set), and let
  \<open>raw\<close> be the entries that \<open>index\<close> selects from its dataset. Without a
  \<open>_FillValue\<close> attribute the field is returned as it was read, in its own element
  type. With one, a float array of the same size is returned, in which every entry that
  compares equal to the fill value is NaN and every other entry is its conversion to
  float64.
\<close>

theorem requested_field_fill_and_cast:
  assumes "atl06_to_dict fs Proj filename beam field_dict index epsg = Inr D"
    and "fs filename = Some h5f"
    and "(key, dss) \<in> set (requested field_dict)" "ds \<in> set dss"
    and "\<forall>(key', dss') \<in> set (requested field_dict). ds \<in> set dss' \<longrightarrow> key' = key"
    and "ds \<notin> {''rgt'', ''cycle'', ''beam''}"
    and "epsg \<noteq> None \<longrightarrow> ds \<notin> {''x'', ''y''}"
    and "h5f (ds_name beam key ds) = Some dset"
  shows "\<exists>raw. read_raw index (data dset) = Inr raw
           \<and> (attrs dset ''_FillValue'' = None \<longrightarrow> D ds = Some (Arr raw))
           \<and> (\<forall>fv. attrs dset ''_FillValue'' = Some fv \<longrightarrow>
                (\<exists>vs. D ds = Some (Arr (FloatArr vs))
                   \<and> length vs = array_size raw
                   \<and> (\<forall>i < array_size raw.
                         vs ! i = (if np_eq_scalar raw fv ! i then NaN
                                   else astype_float raw ! i))))"
proof -
  obtain a where a: "read_dataset h5f (ds_name beam key ds) index = Inr a"
      "D ds = Some (Arr a)"
    using atl06_to_dict_entry[OF assms(1-7)] by blast
  obtain raw where raw: "read_raw index (data dset) = Inr raw"
    using a(1) assms(8)
    by (cases "read_raw index (data dset)") (simp_all add: read_dataset_def)
  have res: "a = (case attrs dset ''_FillValue'' of
                    None \<Rightarrow> raw
                  | Some fv \<Rightarrow> FloatArr (set_nan_where (astype_float raw) (np_eq_scalar raw fv)))"
    using read_dataset_result[of h5f "ds_name beam key ds" dset index raw] assms(8) raw a(1)
    by simp
  have none: "D ds = Some (Arr raw)" if "attrs dset ''_FillValue'' = None"
    using res that a(2) by simp
  have some: "\<exists>vs. D ds = Some (Arr (FloatArr vs)) \<and> length vs = array_size raw
        \<and> (\<forall>i < array_size raw.
              vs ! i = (if np_eq_scalar raw fv ! i then NaN else astype_float raw ! i))"
    if "attrs dset ''_FillValue'' = Some fv" for fv
  proof -
    let ?vs = "set_nan_where (astype_float raw) (np_eq_scalar raw fv)"
    have "D ds = Some (Arr (FloatArr ?vs))" using res that a(2) by simp
    moreover have "length ?vs = array_size raw" by (simp add: set_nan_where_def)
    moreover have "?vs ! i = (if np_eq_scalar raw fv ! i then NaN else astype_float raw ! i)"
      if "i < array_size raw" for i
      using that by (simp add: set_nan_where_nth)
    ultimately show ?thesis by blast
  qed
  show ?thesis
  proof (intro exI[of _ raw] conjI allI impI)
    show "read_raw index (data dset) = Inr raw" by (rule raw)
    show "D ds = Some (Arr raw)" if "attrs dset ''_FillValue'' = None"
      using that by (rule none)
    show "\<exists>vs. D ds = Some (Arr (FloatArr vs)) \<and> length vs = array_size raw
        \<and> (\<forall>i < array_size raw.
              vs ! i = (if np_eq_scalar raw fv ! i then NaN else astype_float raw ! i))"
      if "attrs dset ''_FillValue'' = Some fv" for fv
      using that by (rule some)
  qed
qed

theorem requested_field_fill_and_cast_witness:
  "\<exists>D vs. atl06_to_dict
            [''ATL06_20190205041106_05910210_209_01.h5'' \<mapsto>
               [''gt2l/land_ice_segments/n'' \<mapsto>
                  \<lparr>data = IntArr [1, 9, 9007199254740993],
                     attrs = [''_FillValue'' \<mapsto> IntVal 9]\<rparr>]]
            (\<lambda>code. Inl ProjError) ''ATL06_20190205041106_05910210_209_01.h5'' ''gt2l''
            (Some [(None, [''n''])]) None None = Inr D
        \<and> D ''n'' = Some (Arr (FloatArr vs))
        \<and> length vs = 3 \<and> vs ! 0 = Fin 1 \<and> vs ! 1 = NaN \<and> vs ! 2 = Fin 9007199254740992"
proof -
  let ?dset = "\<lparr>data = IntArr [1, 9, 9007199254740993],
                  attrs = [''_FillValue'' \<mapsto> IntVal 9]\<rparr>"
  let ?h5f = "[''gt2l/land_ice_segments/n'' \<mapsto> ?dset]"
  let ?fs = "[''ATL06_20190205041106_05910210_209_01.h5'' \<mapsto> ?h5f]"
  have "\<exists>D. atl06_to_dict ?fs (\<lambda>code. Inl ProjError)
      ''ATL06_20190205041106_05910210_209_01.h5'' ''gt2l'' (Some [(None, [''n''])])
      None None = Inr D"
    by (simp add: atl06_to_dict_def requested_def ds_name_def read_dataset_def read_raw_def
        file_re_match_at_def strip_prefix_def is_digit_def all_digits_def)
  then obtain D where run: "atl06_to_dict ?fs (\<lambda>code. Inl ProjError)
      ''ATL06_20190205041106_05910210_209_01.h5'' ''gt2l'' (Some [(None, [''n''])])
      None None = Inr D"
    by blast
  have "\<exists>raw. read_raw None (data ?dset) = Inr raw
          \<and> (attrs ?dset ''_FillValue'' = None \<longrightarrow> D ''n'' = Some (Arr raw))
          \<and> (\<forall>fv. attrs ?dset ''_FillValue'' = Some fv \<longrightarrow>
               (\<exists>vs. D ''n'' = Some (Arr (FloatArr vs))
                  \<and> length vs = array_size raw
                  \<and> (\<forall>i < array_size raw.
                        vs ! i = (if np_eq_scalar raw fv ! i then NaN
                                  else astype_float raw ! i))))"
    by (rule requested_field_fill_and_cast[OF run, of ?h5f None "[''n'']"])
      (simp_all add: requested_def ds_name_def)
  then obtain vs where vs: "D ''n'' = Some (Arr (FloatArr vs))" "length vs = 3"
      "\<forall>i < 3. vs ! i = (if np_eq_scalar (IntArr [1, 9, 9007199254740993]) (IntVal 9) ! i
                          then NaN
                          else astype_float (IntArr [1, 9, 9007199254740993]) ! i)"
    by (auto simp add: read_raw_def)
  have "vs ! 0 = Fin 1" "vs ! 1 = NaN" "vs ! 2 = Fin 9007199254740992"
    using vs(3)
    by (simp_all add: int_to_float64_exact int_to_float64_rounds numeral_2_eq_2
        numeral_3_eq_3)
  then show ?thesis using run vs(1,2) by blast
qed

text \<open>
  Claim C4 as written fails for a field without a \<open>_FillValue\<close> attribute: the cast to
  float is inside the test for the attribute, so an integer field without it comes back
  as integers, from the loop body and from the reader as a whole.
\<close>

theorem requested_field_fill_and_cast_counterexample:
  "read_dataset
     [''gt2l/land_ice_segments/atl06_quality_summary'' \<mapsto>
        \<lparr>data = IntArr [0, 1, 0], attrs = Map.empty\<rparr>]
     ''gt2l/land_ice_segments/atl06_quality_summary'' None = Inr (IntArr [0, 1, 0])
   \<and> result_entry
       (atl06_to_dict
          [''ATL06_20190205041106_05910210_209_01.h5'' \<mapsto>
             [''gt2l/land_ice_segments/atl06_quality_summary'' \<mapsto>
                \<lparr>data = IntArr [0, 1, 0], attrs = Map.empty\<rparr>]]
          (\<lambda>code. Inl ProjError) ''ATL06_20190205041106_05910210_209_01.h5'' ''gt2l''
          (Some [(None, [''atl06_quality_summary''])]) None None)
       ''atl06_quality_summary'' = Some (Arr (IntArr [0, 1, 0]))"
  by (simp add: read_dataset_def read_raw_def result_entry_def atl06_to_dict_def
      requested_def ds_name_def project_def file_re_match_at_def strip_prefix_def
      is_digit_def all_digits_def)

text \<open>
  Claim C7, as the code has it. After a read with \<open>epsg\<close> unset that returned, take a
  requested dataset with no fill-flagged entry, whose name is requested in one group
  only and is not one of the provenance keys \<open>rgt\<close>, \<open>cycle\<close>, \<open>beam\<close>, and which
  has no \<open>_FillValue\<close> attribute or holds floats or integers of magnitude at most
  \<open>2 ^ 53\<close>. The entry under its name holds the values that \<open>index\<close> selects from
  the dataset, each unchanged; with \<open>index\<close> unset these are all the values of the
  dataset.
\<close>

theorem read_reproduces_raw_values:
  assumes "atl06_to_dict fs Proj filename beam field_dict index None = Inr D"
    and "fs filename = Some h5f"
    and "(key, dss) \<in> set (requested field_dict)" "ds \<in> set dss"
    and "\<forall>(key', dss') \<in> set (requested field_dict). ds \<in> set dss' \<longrightarrow> key' = key"
    and "ds \<notin> {''rgt'', ''cycle'', ''beam''}"
    and "h5f (ds_name beam key ds) = Some dset"
    and "fill_free dset (data dset)" "cast_exact dset (data dset)"
  shows "\<exists>raw a. read_raw index (data dset) = Inr raw \<and> D ds = Some (Arr a)
           \<and> array_values a = array_values raw
           \<and> (index = None \<longrightarrow> raw = data dset)"
proof -
  obtain a where a: "read_dataset h5f (ds_name beam key ds) index = Inr a"
      "D ds = Some (Arr a)"
    using atl06_to_dict_entry[OF assms(1-6)] by blast
  obtain raw where raw: "read_raw index (data dset) = Inr raw"
    using a(1) assms(7)
    by (cases "read_raw index (data dset)") (simp_all add: read_dataset_def)
  have "fill_free dset raw" by (rule fill_free_read_raw[OF assms(8) raw])
  moreover have "cast_exact dset raw" by (rule cast_exact_read_raw[OF assms(9) raw])
  ultimately have "array_values a = array_values raw"
    using fill_free_values_kept[of h5f "ds_name beam key ds" dset index raw a]
      assms(7) raw a(1) by simp
  moreover have "raw = data dset" if "index = None"
    using raw that by (simp add: read_raw_def)
  ultimately show ?thesis using raw a(2) by blast
qed

theorem read_reproduces_raw_values_witness:
  "\<exists>D a. atl06_to_dict
            [''ATL06_20190205041106_05910210_209_01.h5'' \<mapsto>
               [''gt2l/land_ice_segments/h_li'' \<mapsto>
                  \<lparr>data = IntArr [1, 2, 3], attrs = [''_FillValue'' \<mapsto> IntVal 9]\<rparr>]]
            (\<lambda>code. Inl ProjError) ''ATL06_20190205041106_05910210_209_01.h5'' ''gt2l''
            (Some [(None, [''h_li''])]) None None = Inr D
        \<and> D ''h_li'' = Some (Arr a)
        \<and> array_values a = array_values (IntArr [1, 2, 3])"
proof -
  let ?dset = "\<lparr>data = IntArr [1, 2, 3], attrs = [''_FillValue'' \<mapsto> IntVal 9]\<rparr>"
  let ?h5f = "[''gt2l/land_ice_segments/h_li'' \<mapsto> ?dset]"
  let ?fs = "[''ATL06_20190205041106_05910210_209_01.h5'' \<mapsto> ?h5f]"
  have "\<exists>D. atl06_to_dict ?fs (\<lambda>code. Inl ProjError)
      ''ATL06_20190205041106_05910210_209_01.h5'' ''gt2l'' (Some [(None, [''h_li''])])
      None None = Inr D"
    by (simp add: atl06_to_dict_def requested_def ds_name_def read_dataset_def read_raw_def
        file_re_match_at_def strip_prefix_def is_digit_def all_digits_def)
  then obtain D where run: "atl06_to_dict ?fs (\<lambda>code. Inl ProjError)
      ''ATL06_20190205041106_05910210_209_01.h5'' ''gt2l'' (Some [(None, [''h_li''])])
      None None = Inr D"
    by blast
  have "\<exists>raw a. read_raw None (data ?dset) = Inr raw \<and> D ''h_li'' = Some (Arr a)
          \<and> array_values a = array_values raw
          \<and> (None = (None :: pyslice option) \<longrightarrow> raw = data ?dset)"
    by (rule read_reproduces_raw_values[OF run, of ?h5f None "[''h_li'']"])
      (simp_all add: requested_def ds_name_def fill_free_def cast_exact_def)
  then show ?thesis using run by auto
qed

text \<open>
  Claim C7 as written fails for a dataset with a \<open>_FillValue\<close> attribute that holds an
  integer of more than 53 significant bits: the reader casts the dataset to float64,
  and the value \<open>2 ^ 53 + 1\<close>, which is not the fill value 0, is returned as \<open>2 ^ 53\<close>.
\<close>

theorem read_reproduces_raw_values_counterexample:
  "result_entry
     (atl06_to_dict
        [''ATL06_20190205041106_05910210_209_01.h5'' \<mapsto>
           [''gt2l/land_ice_segments/n'' \<mapsto>
              \<lparr>data = IntArr [9007199254740993], attrs = [''_FillValue'' \<mapsto> IntVal 0]\<rparr>]]
        (\<lambda>code. Inl ProjError) ''ATL06_20190205041106_05910210_209_01.h5'' ''gt2l''
        (Some [(None, [''n''])]) None None)
     ''n'' = Some (Arr (FloatArr [Fin 9007199254740992]))
   \<and> array_values (IntArr [9007199254740993]) = [Fin 9007199254740993]"
  by (simp add: result_entry_def atl06_to_dict_def requested_def ds_name_def
      read_dataset_def read_raw_def set_nan_where_def int_to_float64_rounds
      file_re_match_at_def strip_prefix_def is_digit_def all_digits_def)

text \<open>
  The dictionary has one entry per name, although the docstring of the reader gives each
  dataset its own entry: when two requested datasets share a name, or a requested
  dataset is named like a provenance key, the later value replaces the earlier one.
  Here the entry \<open>h\<close> holds the dataset \<open>h\<close> of the group \<open>g\<close> and not the
  top-level dataset \<open>h\<close>, and the entry \<open>cycle\<close> holds the cycle number of the file
  name and not the dataset \<open>cycle\<close>.
\<close>

lemma name_clash_overwrites:
  "result_entry
     (atl06_to_dict
        [''ATL06_20190205041106_05910210_209_01.h5'' \<mapsto>
           [''gt2l/land_ice_segments/h'' \<mapsto> \<lparr>data = IntArr [1, 2], attrs = Map.empty\<rparr>,
            ''gt2l/land_ice_segments/g/h'' \<mapsto> \<lparr>data = IntArr [3, 4], attrs = Map.empty\<rparr>,
            ''gt2l/land_ice_segments/g/cycle'' \<mapsto> \<lparr>data = IntArr [7, 8], attrs = Map.empty\<rparr>]]
        (\<lambda>code. Inl ProjError) ''ATL06_20190205041106_05910210_209_01.h5'' ''gt2l''
        (Some [(None, [''h'']), (Some ''g'', [''h'', ''cycle''])]) None None)
     ''h'' = Some (Arr (IntArr [3, 4]))
   \<and> result_entry
     (atl06_to_dict
        [''ATL06_20190205041106_05910210_209_01.h5'' \<mapsto>
           [''gt2l/land_ice_segments/h'' \<mapsto> \<lparr>data = IntArr [1, 2], attrs = Map.empty\<rparr>,
            ''gt2l/land_ice_segments/g/h'' \<mapsto> \<lparr>data = IntArr [3, 4], attrs = Map.empty\<rparr>,
            ''gt2l/land_ice_segments/g/cycle'' \<mapsto> \<lparr>data = IntArr [7, 8], attrs = Map.empty\<rparr>]]
        (\<lambda>code. Inl ProjError) ''ATL06_20190205041106_05910210_209_01.h5'' ''gt2l''
        (Some [(None, [''h'']), (Some ''g'', [''h'', ''cycle''])]) None None)
     ''cycle'' = Some (PyInt 2)"
  by (simp add: result_entry_def atl06_to_dict_def requested_def ds_name_def
      read_dataset_def read_raw_def file_re_match_at_def strip_prefix_def
      is_digit_def all_digits_def py_int_def digit_value_def)

end
